theory Spec2Isabelle
  imports Main "HOL-Library.AList"
begin

section \<open>Python values\<close>

text \<open>
  The harvester (\<^verbatim>\<open>ckanext/ddi/harvesters/ddiharvester.py\<close>) works on the values that
  \<^verbatim>\<open>json.loads\<close> and the DDI document parser hand to it: \<^verbatim>\<open>None\<close>, booleans,
  integers, strings, lists, tuples and dictionaries with string keys. Floats do not occur
  in anything the harvester inspects and are left out. A string is a \<^typ>\<open>char list\<close>;
  \<^verbatim>\<open>str\<close> and \<^verbatim>\<open>unicode\<close> (both \<^verbatim>\<open>basestring\<close>) are not told apart.

  A dictionary is an association list with pairwise distinct keys. The order of the list is
  the iteration order of the dictionary; storing under a key that is present keeps its
  place, storing under a new key puts it last. Values are immutable here: two entries of a
  parsed document never share one mutable list object.
\<close>

datatype pyval =
    PNone
  | PBool bool
  | PInt int
  | PStr string
  | PList "pyval list"
  | PTuple "pyval list"
  | PDict "(string \<times> pyval) list"

type_synonym pydict = "(string \<times> pyval) list"

datatype exn =
    KeyError
  | TypeError
  | ValueError
  | AttributeError
  | AccessTypeNotAvailableError
  | RequestException
  | ParseError

text \<open>\<^verbatim>\<open>k in d\<close>, \<^verbatim>\<open>d[k]\<close> (\<^verbatim>\<open>None\<close> stands for the \<^verbatim>\<open>KeyError\<close>), \<^verbatim>\<open>d[k] = v\<close>,
  \<^verbatim>\<open>del d[k]\<close> and the keys in iteration order.\<close>

definition dict_contains :: "pydict \<Rightarrow> string \<Rightarrow> bool" where
  "dict_contains d k = (k \<in> set (map fst d))"

definition dict_get :: "pydict \<Rightarrow> string \<Rightarrow> pyval option" where
  "dict_get d k = map_of d k"

definition dict_set :: "pydict \<Rightarrow> string \<Rightarrow> pyval \<Rightarrow> pydict" where
  "dict_set d k v = AList.update k v d"

definition dict_del :: "pydict \<Rightarrow> string \<Rightarrow> pydict" where
  "dict_del d k = AList.delete k d"

definition dict_keys :: "pydict \<Rightarrow> string list" where
  "dict_keys d = map fst d"

section \<open>Reclassification of unrecognized attributes\<close>

definition DEFAULT_ATTRIBUTES :: "string list" where
  "DEFAULT_ATTRIBUTES =
     [''id'', ''name'', ''title'', ''url'', ''author'', ''author_email'', ''maintainer'',
      ''maintainer_email'', ''license_id'', ''version'', ''notes'', ''tags'', ''extras'']"

text \<open>
  The first loop of \<^verbatim>\<open>_convert_to_extras\<close>:
  \<^verbatim>\<open>
  for key in pkg_dict:
      if key not in self.DEFAULT_ATTRIBUTES:
          pkg_dict['extras'].append((key, pkg_dict[key]))
          keys_to_delete.append(key)
  \<close>
  \<^verbatim>\<open>append\<close> exists on lists only; on any other value the attribute lookup raises
  \<^verbatim>\<open>AttributeError\<close> before the argument is evaluated. The loop changes the list stored
  under \<^verbatim>\<open>extras\<close> and never the key set, so it runs over the keys as they were.
\<close>

fun extras_loop :: "string list \<Rightarrow> pydict \<Rightarrow> string list \<Rightarrow> exn + (pydict \<times> string list)" where
  "extras_loop [] pkg_dict keys_to_delete = Inr (pkg_dict, keys_to_delete)"
| "extras_loop (key # keys) pkg_dict keys_to_delete =
     (if key \<notin> set DEFAULT_ATTRIBUTES then
        (case dict_get pkg_dict ''extras'' of
           None \<Rightarrow> Inl KeyError
         | Some (PList xs) \<Rightarrow>
             (case dict_get pkg_dict key of
                None \<Rightarrow> Inl KeyError
              | Some v \<Rightarrow>
                  extras_loop keys
                    (dict_set pkg_dict ''extras'' (PList (xs @ [PTuple [PStr key, v]])))
                    (keys_to_delete @ [key]))
         | Some _ \<Rightarrow> Inl AttributeError)
      else extras_loop keys pkg_dict keys_to_delete)"

text \<open>
  The second loop:
  \<^verbatim>\<open>
  for key in keys_to_delete:
      if key in pkg_dict:
          del pkg_dict[key]
  \<close>
\<close>

fun delete_loop :: "string list \<Rightarrow> pydict \<Rightarrow> pydict" where
  "delete_loop [] pkg_dict = pkg_dict"
| "delete_loop (key # keys) pkg_dict =
     delete_loop keys (if dict_contains pkg_dict key then dict_del pkg_dict key else pkg_dict)"

definition convert_to_extras :: "pydict \<Rightarrow> exn + pydict" where
  "convert_to_extras pkg_dict =
     (let d1 = (if \<not> dict_contains pkg_dict ''extras''
                then dict_set pkg_dict ''extras'' (PList [])
                else pkg_dict)
      in case extras_loop (dict_keys d1) d1 [] of
           Inl e \<Rightarrow> Inl e
         | Inr (d2, keys_to_delete) \<Rightarrow> Inr (delete_loop keys_to_delete d2))"

section \<open>Formatting and conversion of Python values\<close>

text \<open>\<^verbatim>\<open>'%s' % n\<close> for an integer: its decimal digits, with a minus sign when negative.\<close>

definition digit_char :: "nat \<Rightarrow> char" where
  "digit_char n = ''0123456789'' ! (n mod 10)"

fun str_nat :: "nat \<Rightarrow> string" where
  "str_nat n = (if n < 10 then [digit_char n] else str_nat (n div 10) @ [digit_char n])"

declare str_nat.simps [simp del]

definition str_int :: "int \<Rightarrow> string" where
  "str_int i = (if i < 0 then CHR ''-'' # str_nat (nat (- i)) else str_nat (nat i))"

text \<open>
  \<^verbatim>\<open>str(v)\<close>. The text Python prints for a list, a tuple or a dictionary depends on the
  interpreter's \<^verbatim>\<open>repr\<close> of the elements; it is the parameter \<open>repr\<close>.
\<close>

fun py_str :: "(pyval \<Rightarrow> string) \<Rightarrow> pyval \<Rightarrow> string" where
  "py_str repr PNone = ''None''"
| "py_str repr (PBool b) = (if b then ''True'' else ''False'')"
| "py_str repr (PInt i) = str_int i"
| "py_str repr (PStr s) = s"
| "py_str repr v = repr v"

text \<open>\<^verbatim>\<open>prefix + '%s' % v\<close> with a single value on the right: a tuple there is the
  argument tuple, so it must have exactly one element.\<close>

fun format_s :: "(pyval \<Rightarrow> string) \<Rightarrow> pyval \<Rightarrow> exn + string" where
  "format_s repr (PTuple [x]) = Inr (py_str repr x)"
| "format_s repr (PTuple xs) = Inl TypeError"
| "format_s repr v = Inr (py_str repr v)"

text \<open>
  \<^verbatim>\<open>int(v)\<close>: an integer or boolean as it is, anything that is neither a number nor a
  text a \<^verbatim>\<open>TypeError\<close>. How a text is read (which blanks, signs and digits are
  accepted) is the interpreter's business and differs between its versions; it is the
  parameter \<open>int_str\<close>, which returns the number or the exception.
\<close>

fun py_int :: "(string \<Rightarrow> exn + int) \<Rightarrow> pyval \<Rightarrow> exn + int" where
  "py_int int_str (PInt i) = Inr i"
| "py_int int_str (PBool b) = Inr (if b then 1 else 0)"
| "py_int int_str (PStr s) = int_str s"
| "py_int int_str v = Inl TypeError"

text \<open>\<^verbatim>\<open>v[k]\<close> for a string \<open>k\<close>: only a dictionary can be subscripted by a string.\<close>

fun py_getitem :: "pyval \<Rightarrow> string \<Rightarrow> exn + pyval" where
  "py_getitem (PDict d) k = (case dict_get d k of None \<Rightarrow> Inl KeyError | Some v \<Rightarrow> Inr v)"
| "py_getitem v k = Inl TypeError"

text \<open>The elements a \<^verbatim>\<open>for\<close> loop over \<open>v\<close> visits: a string yields its characters, a
  dictionary its keys.\<close>

fun py_iter :: "pyval \<Rightarrow> exn + pyval list" where
  "py_iter (PList xs) = Inr xs"
| "py_iter (PTuple xs) = Inr xs"
| "py_iter (PStr s) = Inr (map (\<lambda>c. PStr [c]) s)"
| "py_iter (PDict d) = Inr (map (\<lambda>k. PStr k) (dict_keys d))"
| "py_iter v = Inl TypeError"

text \<open>\<^verbatim>\<open>v[:100]\<close>.\<close>

fun py_slice100 :: "pyval \<Rightarrow> exn + pyval" where
  "py_slice100 (PStr s) = Inr (PStr (take 100 s))"
| "py_slice100 (PList xs) = Inr (PList (take 100 xs))"
| "py_slice100 (PTuple xs) = Inr (PTuple (take 100 xs))"
| "py_slice100 v = Inl TypeError"

text \<open>Whether a value can be a dictionary key: lists and dictionaries cannot, a tuple can
  when its elements can.\<close>

fun py_hashable :: "pyval \<Rightarrow> bool" where
  "py_hashable (PList xs) = False"
| "py_hashable (PDict d) = False"
| "py_hashable (PTuple xs) = list_all py_hashable xs"
| "py_hashable v = True"

text \<open>\<^verbatim>\<open>s.rstrip('/')\<close>.\<close>

definition rstrip_slash :: "string \<Rightarrow> string" where
  "rstrip_slash s = rev (dropWhile (\<lambda>c. c = CHR ''/'') (rev s))"

section \<open>Harvest source and configuration\<close>

text \<open>
  A harvest source has a URL and a configuration text. The configuration is either empty
  (\<open>None\<close>) or a JSON object, given here as \<^verbatim>\<open>json.loads\<close> returns it.
\<close>

record harvest_source =
  url :: string
  config :: "pydict option"

definition HARVEST_USER :: string where
  "HARVEST_USER = ''harvest''"

definition set_config :: "pydict option \<Rightarrow> pydict" where
  "set_config config_str =
     (let cfg = (case config_str of Some d \<Rightarrow> d | None \<Rightarrow> [])
      in if \<not> dict_contains cfg ''user'' then dict_set cfg ''user'' (PStr HARVEST_USER) else cfg)"

section \<open>Endpoint builder\<close>

definition ACCESS_TYPES :: "(string \<times> pyval) list" where
  "ACCESS_TYPES =
     [([], PStr []),
      (''direct_access'', PInt 1),
      (''public_use'', PInt 2),
      (''licensed'', PInt 3),
      (''data_enclave'', PInt 4),
      (''data_external'', PInt 5),
      (''no_data_available'', PInt 6),
      (''open_data'', PInt 7)]"

text \<open>\<^verbatim>\<open>self.ACCESS_TYPES[access_type]\<close>: an unhashable key is a \<^verbatim>\<open>TypeError\<close>, a
  hashable value that is not one of the (string) keys a \<^verbatim>\<open>KeyError\<close>.\<close>

definition access_types_lookup :: "pyval \<Rightarrow> exn + pyval" where
  "access_types_lookup access_type =
     (if \<not> py_hashable access_type then Inl TypeError
      else (case access_type of
              PStr s \<Rightarrow> (case map_of ACCESS_TYPES s of None \<Rightarrow> Inl KeyError | Some c \<Rightarrow> Inr c)
            | _ \<Rightarrow> Inl KeyError))"

definition get_search_api :: "(pyval \<Rightarrow> string) \<Rightarrow> pyval \<Rightarrow> int \<Rightarrow> exn + string" where
  "get_search_api repr access_type page =
     (if access_type \<noteq> PNone then
        (case access_types_lookup access_type of
           Inr code \<Rightarrow>
             Inr (''/index.php/api/v2/catalog/search/format/json/'' @ ''?dtype[]=''
                  @ py_str repr code @ ''&page='' @ str_int page)
         | Inl e \<Rightarrow> if e = KeyError then Inl AccessTypeNotAvailableError else Inl e)
      else Inr (''/index.php/api/v2/catalog/search/format/json?page='' @ str_int page))"

definition get_ddi_api :: "string \<Rightarrow> string" where
  "get_ddi_api ddi_id = ''/index.php/catalog/ddi/'' @ ddi_id"

definition get_catalog_path :: "string \<Rightarrow> string" where
  "get_catalog_path ddi_id = ''/index.php/catalog/'' @ ddi_id"

section \<open>Discovery: the gather stage\<close>

text \<open>
  The search URL of one page, lines 126 to 135:
  \<^verbatim>\<open>
  try:
      api_url = base_url + self._get_search_api(self.config['access_type'], page)
  except (AccessTypeNotAvailableError, KeyError):
      api_url = base_url + self._get_search_api('public_use', page)
  \<close>
\<close>

definition build_api_url :: "(pyval \<Rightarrow> string) \<Rightarrow> pydict \<Rightarrow> string \<Rightarrow> int \<Rightarrow> exn + string" where
  "build_api_url repr cfg base_url page =
     (case (case dict_get cfg ''access_type'' of
              None \<Rightarrow> Inl KeyError
            | Some access_type \<Rightarrow> get_search_api repr access_type page) of
        Inr path \<Rightarrow> Inr (base_url @ path)
      | Inl e \<Rightarrow>
          if e = AccessTypeNotAvailableError \<or> e = KeyError then
            (case get_search_api repr (PStr ''public_use'') page of
               Inr path \<Rightarrow> Inr (base_url @ path)
             | Inl e' \<Rightarrow> Inl e')
          else Inl e)"

definition search_url :: "(pyval \<Rightarrow> string) \<Rightarrow> harvest_source \<Rightarrow> int \<Rightarrow> exn + string" where
  "search_url repr src page =
     build_api_url repr (set_config (config src)) (rstrip_slash (url src)) page"

text \<open>
  The loop over the rows of a page saves one harvest object per row, with the row's
  \<^verbatim>\<open>id\<close> as its guid, and appends the object to \<^verbatim>\<open>harvest_obj_ids\<close>. An object is
  written here as its guid: the list is at once the objects saved so far, in order, and
  their identifiers. The first row without an \<^verbatim>\<open>id\<close> raises and leaves the objects of
  the rows before it saved.
\<close>

fun save_rows :: "pyval list \<Rightarrow> pyval list \<Rightarrow> exn option \<times> pyval list" where
  "save_rows [] harvest_obj_ids = (None, harvest_obj_ids)"
| "save_rows (row # rows) harvest_obj_ids =
     (case py_getitem row ''id'' of
        Inl e \<Rightarrow> (Some e, harvest_obj_ids)
      | Inr guid \<Rightarrow> save_rows rows (harvest_obj_ids @ [guid]))"

text \<open>Lines 155 and 156: \<^verbatim>\<open>int(data['offset']) + int(data['limit']) < int(data['found'])\<close>,
  evaluated from left to right.\<close>

definition continue_gather :: "(string \<Rightarrow> exn + int) \<Rightarrow> pyval \<Rightarrow> exn + bool" where
  "continue_gather int_str data =
     (case py_getitem data ''offset'' of Inl e \<Rightarrow> Inl e | Inr ov \<Rightarrow>
      case py_int int_str ov of Inl e \<Rightarrow> Inl e | Inr offset \<Rightarrow>
      case py_getitem data ''limit'' of Inl e \<Rightarrow> Inl e | Inr lv \<Rightarrow>
      case py_int int_str lv of Inl e \<Rightarrow> Inl e | Inr limit \<Rightarrow>
      case py_getitem data ''found'' of Inl e \<Rightarrow> Inl e | Inr fv \<Rightarrow>
      case py_int int_str fv of Inl e \<Rightarrow> Inl e | Inr found \<Rightarrow>
      Inr (offset + limit < found))"

text \<open>
  One page, lines 142 to 156, once its URL is built. \<open>fetch\<close> is the server seen through
  \<^verbatim>\<open>requests.get(api_url, headers=headers).json()\<close>: the decoded body, or the exception of
  the request or of the decoding. The result is the continuation flag or the exception,
  with the harvest objects saved up to there.
\<close>

definition process_page ::
  "(string \<Rightarrow> exn + pyval) \<Rightarrow> (string \<Rightarrow> exn + int) \<Rightarrow> string \<Rightarrow> pyval list
     \<Rightarrow> (exn + bool) \<times> pyval list" where
  "process_page fetch int_str api_url harvest_obj_ids =
     (case fetch api_url of
        Inl e \<Rightarrow> (Inl e, harvest_obj_ids)
      | Inr data \<Rightarrow>
          (case py_getitem data ''rows'' of
             Inl e \<Rightarrow> (Inl e, harvest_obj_ids)
           | Inr rs \<Rightarrow>
               (case py_iter rs of
                  Inl e \<Rightarrow> (Inl e, harvest_obj_ids)
                | Inr rows \<Rightarrow>
                    (case save_rows rows harvest_obj_ids of
                       (Some e, ids) \<Rightarrow> (Inl e, ids)
                     | (None, ids) \<Rightarrow> (continue_gather int_str data, ids)))))"

text \<open>
  The state of the \<^verbatim>\<open>while\<close> loop, with the URLs requested so far. What the stage
  leaves behind: the requests made, the harvest objects saved, the errors reported with
  \<^verbatim>\<open>_save_gather_error\<close> (each with the value of \<^verbatim>\<open>api_url\<close> and the exception its
  message is built from), and the returned list; the \<^verbatim>\<open>except\<close> branch returns nothing.
\<close>

record gather_state =
  api_url :: "string option"
  page :: int
  harvest_obj_ids :: "pyval list"
  requested :: "string list"

record gather_result =
  requests_made :: "string list"
  saved_objects :: "pyval list"
  gather_errors :: "(string option \<times> exn) list"
  returned :: "pyval list option"

definition gather_failed :: "gather_state \<Rightarrow> exn \<Rightarrow> gather_result" where
  "gather_failed st e =
     \<lparr>requests_made = requested st, saved_objects = harvest_obj_ids st,
      gather_errors = [(api_url st, e)], returned = None\<rparr>"

definition gather_done :: "gather_state \<Rightarrow> gather_result" where
  "gather_done st =
     \<lparr>requests_made = requested st, saved_objects = harvest_obj_ids st,
      gather_errors = [], returned = Some (harvest_obj_ids st)\<rparr>"

text \<open>The body of the loop: the exception that ends the stage, or the value of
  \<^verbatim>\<open>continue_gather\<close>, each with the state reached. After an exception the page
  counter is never read again, so the state keeps it as it was.\<close>

definition gather_page ::
  "(string \<Rightarrow> exn + pyval) \<Rightarrow> (string \<Rightarrow> exn + int) \<Rightarrow> (pyval \<Rightarrow> string)
     \<Rightarrow> harvest_source \<Rightarrow> gather_state
     \<Rightarrow> (exn + bool) \<times> gather_state" where
  "gather_page fetch int_str repr src st =
     (case search_url repr src (page st) of
        Inl e \<Rightarrow> (Inl e, st)
      | Inr u \<Rightarrow>
          (case process_page fetch int_str u (harvest_obj_ids st) of
             (Inl e, ids) \<Rightarrow>
               (Inl e, st\<lparr>api_url := Some u, harvest_obj_ids := ids,
                           requested := requested st @ [u]\<rparr>)
           | (Inr c, ids) \<Rightarrow>
               (Inr c, st\<lparr>api_url := Some u, page := page st + 1, harvest_obj_ids := ids,
                           requested := requested st @ [u]\<rparr>)))"

text \<open>The loop may run forever: it is a partial function, and \<open>None\<close> is not returning.\<close>

partial_function (option) gather_loop ::
  "(string \<Rightarrow> exn + pyval) \<Rightarrow> (string \<Rightarrow> exn + int) \<Rightarrow> (pyval \<Rightarrow> string)
     \<Rightarrow> harvest_source \<Rightarrow> gather_state
     \<Rightarrow> gather_result option" where
  "gather_loop fetch int_str repr src st =
     (case gather_page fetch int_str repr src st of
        (Inl e, st') \<Rightarrow> Some (gather_failed st' e)
      | (Inr c, st') \<Rightarrow> if c then gather_loop fetch int_str repr src st' else Some (gather_done st'))"

definition gather_stage ::
  "(string \<Rightarrow> exn + pyval) \<Rightarrow> (string \<Rightarrow> exn + int) \<Rightarrow> (pyval \<Rightarrow> string)
     \<Rightarrow> harvest_source \<Rightarrow> gather_result option" where
  "gather_stage fetch int_str repr src =
     gather_loop fetch int_str repr src
       \<lparr>api_url = None, page = 1, harvest_obj_ids = [], requested = []\<rparr>"

section \<open>Normalization: the import stage\<close>

text \<open>
  What the stage takes from outside this module: the document parser
  \<^verbatim>\<open>DdiCkanMetadata().load\<close>, \<^verbatim>\<open>ckan.lib.munge.munge_tag\<close>, the instance setting
  \<^verbatim>\<open>ckanext.ddi.default_license\<close> (\<open>None\<close> when unset) and the interpreter's \<^verbatim>\<open>repr\<close>.
\<close>

record environment =
  load :: "string \<Rightarrow> exn + pydict"
  munge_tag :: "string \<Rightarrow> string"
  default_license :: "pyval option"
  py_repr :: "pyval \<Rightarrow> string"

record harvest_object =
  guid :: string
  content :: string
  source :: harvest_source

text \<open>Lines 246 to 249: only strings are kept, each cut to 100 characters and munged.\<close>

fun munge_tags :: "(string \<Rightarrow> string) \<Rightarrow> pyval list \<Rightarrow> pyval list" where
  "munge_tags munge [] = []"
| "munge_tags munge (PStr tag # rest) = PStr (munge (take 100 tag)) # munge_tags munge rest"
| "munge_tags munge (tag # rest) = munge_tags munge rest"

text \<open>
  Lines 220 to 280. The result is the package dictionary handed to
  \<^verbatim>\<open>_create_or_update_package\<close>, or the exception that the \<^verbatim>\<open>except\<close> branch reports
  for this one harvest object.
\<close>

definition import_stage :: "environment \<Rightarrow> harvest_object \<Rightarrow> exn + pydict" where
  "import_stage env harvest_object =
     (let cfg = set_config (config (source harvest_object));
          base_url = rstrip_slash (url (source harvest_object))
      in case load env (content harvest_object) of Inl e \<Rightarrow> Inl e | Inr pkg0 \<Rightarrow>
         case convert_to_extras pkg0 of Inl e \<Rightarrow> Inl e | Inr pkg1 \<Rightarrow>
         let catalog_path = get_catalog_path (guid harvest_object);
             pkg2 = dict_set pkg1 ''url'' (PStr (base_url @ catalog_path));
             pkg3 = (case dict_get cfg ''license'' of
                       Some l \<Rightarrow> dict_set pkg2 ''license_id'' l
                     | None \<Rightarrow>
                         dict_set pkg2 ''license_id''
                           (case default_license env of Some l \<Rightarrow> l | None \<Rightarrow> PStr []))
         in case dict_get pkg3 ''tags'' of None \<Rightarrow> Inl KeyError | Some tv \<Rightarrow>
            case py_iter tv of Inl e \<Rightarrow> Inl e | Inr ts \<Rightarrow>
            let pkg4 = dict_set pkg3 ''tags'' (PList (munge_tags (munge_tag env) ts))
            in case dict_get pkg4 ''version'' of None \<Rightarrow> Inl KeyError | Some ver \<Rightarrow>
               case py_slice100 ver of Inl e \<Rightarrow> Inl e | Inr ver' \<Rightarrow>
               let pkg5 = dict_set pkg4 ''version'' ver'
               in case dict_get pkg5 ''title'' of None \<Rightarrow> Inl KeyError | Some title \<Rightarrow>
                  case format_s (py_repr env) title of Inl e \<Rightarrow> Inl e | Inr t \<Rightarrow>
                  case dict_get pkg5 ''url'' of None \<Rightarrow> Inl KeyError | Some u \<Rightarrow>
                  Inr (dict_set pkg5 ''resources''
                         (PList
                            [PDict [(''url'', PStr (base_url @ get_ddi_api (guid harvest_object))),
                                    (''name'', PStr (''DDI XML of '' @ t)),
                                    (''format'', PStr ''xml'')],
                             PDict [(''url'', u),
                                    (''name'', PStr ''NADA catalog entry''),
                                    (''format'', PStr ''html'')]])))"

section \<open>Vocabulary of the statements\<close>

text \<open>The entries of a raw map whose keys are not recognized, in iteration order, and the
  pair that reclassification stores for one of them.\<close>

definition unrecognized :: "pydict \<Rightarrow> pydict" where
  "unrecognized d = filter (\<lambda>kv. fst kv \<notin> set DEFAULT_ATTRIBUTES) d"

definition extras_pair :: "string \<times> pyval \<Rightarrow> pyval" where
  "extras_pair kv = PTuple [PStr (fst kv), snd kv]"

text \<open>A row that carries an \<^verbatim>\<open>id\<close>, and the body of a search page as the catalog
  sends it: \<^verbatim>\<open>{rows: [...], offset, limit, found}\<close> with integer counts.\<close>

definition row_of :: "pyval \<Rightarrow> pyval" where
  "row_of ident = PDict [(''id'', ident)]"

definition search_page :: "pyval list \<Rightarrow> int \<Rightarrow> int \<Rightarrow> int \<Rightarrow> pyval" where
  "search_page rows offset limit found =
     PDict [(''rows'', PList rows), (''offset'', PInt offset), (''limit'', PInt limit),
            (''found'', PInt found)]"

section \<open>Example inputs\<close>

text \<open>A parsed map with its own \<^verbatim>\<open>extras\<close> list, one without, and one whose
  \<^verbatim>\<open>extras\<close> list already holds the pair of another key.\<close>

definition raw_with_extras :: pydict where
  "raw_with_extras =
     [(''id'', PStr ''1''), (''extras'', PList [PStr ''e'']), (''foo'', PStr ''a''),
      (''title'', PStr ''T''), (''bar'', PInt 2)]"

definition raw_without_extras :: pydict where
  "raw_without_extras = [(''foo'', PStr ''a''), (''id'', PStr ''1''), (''bar'', PInt 2)]"

definition raw_repeated_pair :: pydict where
  "raw_repeated_pair =
     [(''extras'', PList [PTuple [PStr ''foo'', PStr ''a'']]), (''foo'', PStr ''a'')]"

text \<open>
  Stand-ins for what the interpreter and CKAN supply, used only to run examples: a
  \<^verbatim>\<open>repr\<close> that prints every container alike, a reading of texts as integers that
  accepts plain runs of the digits 0 to 9 and nothing else, and a tag munging that
  lower-cases ASCII letters and writes a hyphen for a space or an underscore. Then the parsed map of the
  normalization example, a parsed map that brings its own \<^verbatim>\<open>resources\<close>, one that
  brings its own \<^verbatim>\<open>url\<close>, a harvest source,
  a harvest object and the environments whose parser returns these maps.
\<close>

definition example_repr :: "pyval \<Rightarrow> string" where
  "example_repr v = ''<object>''"

definition digit_val :: "char \<Rightarrow> nat option" where
  "digit_val c =
     map_of [(CHR ''0'', 0), (CHR ''1'', 1), (CHR ''2'', 2), (CHR ''3'', 3), (CHR ''4'', 4),
             (CHR ''5'', 5), (CHR ''6'', 6), (CHR ''7'', 7), (CHR ''8'', 8), (CHR ''9'', 9)] c"

fun digits_val :: "string \<Rightarrow> nat \<Rightarrow> nat option" where
  "digits_val [] acc = Some acc"
| "digits_val (c # cs) acc =
     (case digit_val c of None \<Rightarrow> None | Some d \<Rightarrow> digits_val cs (10 * acc + d))"

definition example_int_str :: "string \<Rightarrow> exn + int" where
  "example_int_str s =
     (if s = [] then Inl ValueError
      else (case digits_val s 0 of None \<Rightarrow> Inl ValueError | Some n \<Rightarrow> Inr (int n)))"

definition example_munge :: "string \<Rightarrow> string" where
  "example_munge s =
     map (\<lambda>c. case map_of (zip ''ABCDEFGHIJKLMNOPQRSTUVWXYZ _'' ''abcdefghijklmnopqrstuvwxyz--'') c of
                 Some l \<Rightarrow> l | None \<Rightarrow> c) s"

definition raw_sample :: pydict where
  "raw_sample =
     [(''id'', PStr ''1''), (''title'', PStr ''T''),
      (''tags'', PList [PStr ''Foo Bar'', PStr (replicate 200 CHR ''x''), PInt 42]),
      (''version'', PStr (replicate 200 CHR ''v'')), (''custom_field'', PStr ''Z'')]"

definition raw_with_resources :: pydict where
  "raw_with_resources =
     [(''title'', PStr ''T''), (''tags'', PList []), (''version'', PStr ''1''),
      (''resources'', PList [PStr ''r''])]"

definition raw_with_url :: pydict where
  "raw_with_url =
     [(''url'', PStr ''http://parser.example/x''), (''title'', PStr ''T''), (''tags'', PList []),
      (''version'', PStr ''1'')]"

definition example_source :: harvest_source where
  "example_source =
     \<lparr>url = ''http://nada.example/'', config = Some [(''access_type'', PStr ''licensed'')]\<rparr>"

definition example_object :: harvest_object where
  "example_object = \<lparr>guid = ''639'', content = ''<codeBook/>'', source = example_source\<rparr>"

definition env_sample :: environment where
  "env_sample =
     \<lparr>load = (\<lambda>doc. Inr raw_sample), munge_tag = example_munge, default_license = None,
      py_repr = example_repr\<rparr>"

definition env_with_resources :: environment where
  "env_with_resources =
     \<lparr>load = (\<lambda>doc. Inr raw_with_resources), munge_tag = example_munge,
      default_license = None, py_repr = example_repr\<rparr>"

definition env_with_url :: environment where
  "env_with_url =
     \<lparr>load = (\<lambda>doc. Inr raw_with_url), munge_tag = example_munge, default_license = None,
      py_repr = example_repr\<rparr>"

definition pkg_with_resources :: pydict where
  "pkg_with_resources =
     [(''title'', PStr ''T''), (''tags'', PList []), (''version'', PStr ''1''),
      (''extras'', PList [PTuple [PStr ''resources'', PList [PStr ''r'']]]),
      (''url'', PStr ''http://nada.example/index.php/catalog/639''),
      (''license_id'', PStr []),
      (''resources'',
       PList [PDict [(''url'', PStr ''http://nada.example/index.php/catalog/ddi/639''),
                     (''name'', PStr ''DDI XML of T''), (''format'', PStr ''xml'')],
              PDict [(''url'', PStr ''http://nada.example/index.php/catalog/639''),
                     (''name'', PStr ''NADA catalog entry''), (''format'', PStr ''html'')]])]"

text \<open>
  The search URLs of the example source (access type \<^verbatim>\<open>licensed\<close>), identifiers written as
  decimal strings, and seven servers: one with no record; one with 25 records on three
  pages; one whose second page has a row without \<^verbatim>\<open>id\<close>; one that refuses every request
  after the first page; one whose pages have no \<^verbatim>\<open>found\<close>; two that answer every request
  with offset 0, limit 10 and found 25.
\<close>

definition example_url :: "int \<Rightarrow> string" where
  "example_url p =
     ''http://nada.example/index.php/api/v2/catalog/search/format/json/?dtype[]=3&page='' @ str_int p"

definition ids_upto :: "int \<Rightarrow> int \<Rightarrow> pyval list" where
  "ids_upto lo hi = map (\<lambda>i. PStr (str_int i)) [lo..hi]"

definition server_empty :: "string \<Rightarrow> exn + pyval" where
  "server_empty u = Inr (search_page [] 0 10 0)"

definition server_25 :: "string \<Rightarrow> exn + pyval" where
  "server_25 u =
     (if u = example_url 1 then Inr (search_page (map row_of (ids_upto 1 10)) 0 10 25)
      else if u = example_url 2 then Inr (search_page (map row_of (ids_upto 11 20)) 10 10 25)
      else if u = example_url 3 then Inr (search_page (map row_of (ids_upto 21 25)) 20 10 25)
      else Inl RequestException)"

definition server_broken :: "string \<Rightarrow> exn + pyval" where
  "server_broken u =
     (if u = example_url 1 then Inr (search_page (map row_of (ids_upto 1 10)) 0 10 25)
      else if u = example_url 2 then
        Inr (search_page [row_of (PStr ''11''), PDict [(''idno'', PStr ''x'')], row_of (PStr ''13'')]
               10 10 25)
      else Inl RequestException)"

definition server_down :: "string \<Rightarrow> exn + pyval" where
  "server_down u =
     (if u = example_url 1 then Inr (search_page (map row_of (ids_upto 1 10)) 0 10 25)
      else Inl RequestException)"

definition server_no_found :: "string \<Rightarrow> exn + pyval" where
  "server_no_found u =
     Inr (PDict [(''rows'', PList [row_of (PStr ''7'')]), (''offset'', PInt 0),
                 (''limit'', PStr ''10'')])"

definition server_stuck :: "string \<Rightarrow> exn + pyval" where
  "server_stuck u = Inr (search_page [row_of (PStr ''1'')] 0 10 25)"

definition server_stuck_empty :: "string \<Rightarrow> exn + pyval" where
  "server_stuck_empty u = Inr (search_page [] 0 10 25)"

section \<open>Properties of the dictionary operations and of reclassification\<close>

lemma dict_get_set: "dict_get (dict_set d k v) k' = (if k' = k then Some v else dict_get d k')"
  by (simp add: dict_get_def dict_set_def update_conv')

lemma dict_set_set: "dict_set (dict_set d k v) k w = dict_set d k w"
  by (simp add: dict_set_def)

lemma extras_recognized: "''extras'' \<in> set DEFAULT_ATTRIBUTES"
  by (simp add: DEFAULT_ATTRIBUTES_def)

lemma extras_loop_char:
  "dict_get d ''extras'' = Some (PList xs) \<Longrightarrow> \<forall>k\<in>set ks. dict_get d k \<noteq> None \<Longrightarrow>
   extras_loop ks d dels =
     Inr (dict_set d ''extras''
            (PList (xs @ map (\<lambda>k. PTuple [PStr k, the (dict_get d k)])
                          (filter (\<lambda>k. k \<notin> set DEFAULT_ATTRIBUTES) ks))),
          dels @ filter (\<lambda>k. k \<notin> set DEFAULT_ATTRIBUTES) ks)"
proof (induction ks arbitrary: d xs dels)
  case Nil
  then show ?case by (simp add: dict_set_def dict_get_def update_triv)
next
  case (Cons key keys)
  show ?case
  proof (cases "key \<in> set DEFAULT_ATTRIBUTES")
    case True
    with Cons show ?thesis by simp
  next
    case False
    from Cons.prems obtain v where v: "dict_get d key = Some v" by auto
    let ?d = "dict_set d ''extras'' (PList (xs @ [PTuple [PStr key, v]]))"
    have e: "dict_get ?d ''extras'' = Some (PList (xs @ [PTuple [PStr key, v]]))"
      by (simp add: dict_get_set)
    have k: "\<forall>k\<in>set keys. dict_get ?d k \<noteq> None"
      using Cons.prems by (simp add: dict_get_set)
    have same: "map (\<lambda>k. PTuple [PStr k, the (dict_get ?d k)]) (filter (\<lambda>k. k \<notin> set DEFAULT_ATTRIBUTES) keys)
        = map (\<lambda>k. PTuple [PStr k, the (dict_get d k)]) (filter (\<lambda>k. k \<notin> set DEFAULT_ATTRIBUTES) keys)"
      using extras_recognized by (auto simp: dict_get_set)
    show ?thesis
      using False v Cons.prems(1) Cons.IH[OF e k] same
      by (simp add: dict_set_set)
  qed
qed

lemma delete_loop_filter: "delete_loop ks d = filter (\<lambda>kv. fst kv \<notin> set ks) d"
proof (induction ks arbitrary: d)
  case Nil
  then show ?case by simp
next
  case (Cons key keys)
  have "(if dict_contains d key then dict_del d key else d) = AList.delete key d"
    by (simp add: dict_contains_def dict_del_def)
  then show ?case using Cons by (auto simp: AList.delete_eq intro: filter_cong)
qed

lemma pairs_of_keys:
  "distinct (map fst d) \<Longrightarrow>
   map (\<lambda>k. PTuple [PStr k, the (map_of d k)]) (filter P (map fst d))
     = map extras_pair (filter (\<lambda>kv. P (fst kv)) d)"
proof (induction d)
  case Nil
  then show ?case by simp
next
  case (Cons a d)
  obtain k v where a: "a = (k, v)" by (cases a)
  from Cons.prems a have notin: "k \<notin> fst ` set d" and dist: "distinct (map fst d)" by auto
  have "map (\<lambda>k'. PTuple [PStr k', the (map_of (a # d) k')]) (filter P (map fst d))
      = map (\<lambda>k'. PTuple [PStr k', the (map_of d k')]) (filter P (map fst d))"
    using notin a by (auto simp: image_iff)
  then show ?case using Cons.IH[OF dist] a by (simp add: extras_pair_def)
qed

lemma convert_with_extras:
  assumes dist: "distinct (map fst d)" and ex: "dict_get d ''extras'' = Some (PList old)"
  shows "convert_to_extras d =
           Inr (filter (\<lambda>kv. fst kv \<in> set DEFAULT_ATTRIBUTES)
                  (dict_set d ''extras'' (PList (old @ map extras_pair (unrecognized d)))))"
proof -
  have c: "dict_contains d ''extras''"
    using ex by (auto simp: dict_contains_def dict_get_def dest: map_of_SomeD intro: rev_image_eqI)
  have all: "\<forall>k\<in>set (dict_keys d). dict_get d k \<noteq> None"
    by (auto simp: dict_keys_def dict_get_def map_of_eq_None_iff)
  have pairs: "map (\<lambda>k. PTuple [PStr k, the (dict_get d k)])
                 (filter (\<lambda>k. k \<notin> set DEFAULT_ATTRIBUTES) (dict_keys d))
               = map extras_pair (unrecognized d)"
    using pairs_of_keys[OF dist, of "\<lambda>k. k \<notin> set DEFAULT_ATTRIBUTES"]
    by (simp add: dict_keys_def dict_get_def unrecognized_def)
  let ?d2 = "dict_set d ''extras'' (PList (old @ map extras_pair (unrecognized d)))"
  have keys2: "fst ` set ?d2 = fst ` set d"
    using c by (auto simp: dict_set_def dom_update dict_contains_def)
  have "filter (\<lambda>kv. fst kv \<notin> set (filter (\<lambda>k. k \<notin> set DEFAULT_ATTRIBUTES) (dict_keys d))) ?d2
      = filter (\<lambda>kv. fst kv \<in> set DEFAULT_ATTRIBUTES) ?d2"
    using keys2 by (intro filter_cong) (auto simp: dict_keys_def)
  then show ?thesis
    using c extras_loop_char[OF ex all, of "[]"] pairs
    by (simp add: convert_to_extras_def delete_loop_filter)
qed

lemma convert_without_extras:
  assumes dist: "distinct (map fst d)" and ex: "dict_get d ''extras'' = None"
  shows "convert_to_extras d = convert_to_extras (d @ [(''extras'', PList [])])"
    and "convert_to_extras d =
           Inr (filter (\<lambda>kv. fst kv \<in> set DEFAULT_ATTRIBUTES) d
                @ [(''extras'', PList (map extras_pair (unrecognized d)))])"
proof -
  have nc: "\<not> dict_contains d ''extras''"
    using ex by (simp add: dict_contains_def dict_get_def map_of_eq_None_iff)
  have upd: "dict_set d ''extras'' v = d @ [(''extras'', v)]" for v
    using nc unfolding dict_set_def dict_contains_def by (induction d) auto
  let ?d1 = "d @ [(''extras'', PList [])]"
  have c1: "dict_contains ?d1 ''extras''" by (simp add: dict_contains_def)
  show 1: "convert_to_extras d = convert_to_extras ?d1"
    using nc c1 by (simp add: convert_to_extras_def upd)
  have dist1: "distinct (map fst ?d1)" using dist nc by (simp add: dict_contains_def)
  have ex1: "dict_get ?d1 ''extras'' = Some (PList [])"
    using ex by (simp add: dict_get_def map_add_def split: option.splits)
  have un: "unrecognized ?d1 = unrecognized d"
    using extras_recognized by (simp add: unrecognized_def)
  have "dict_set ?d1 ''extras'' v = d @ [(''extras'', v)]" for v
    using upd[of "PList []"] upd[of v] dict_set_set[of d "''extras''" "PList []" v] by simp
  then show "convert_to_extras d =
           Inr (filter (\<lambda>kv. fst kv \<in> set DEFAULT_ATTRIBUTES) d
                @ [(''extras'', PList (map extras_pair (unrecognized d)))])"
    using 1 convert_with_extras[OF dist1 ex1] un extras_recognized by simp
qed

lemma dict_get_filter:
  "dict_get (filter (\<lambda>kv. P (fst kv)) d) k = (if P k then dict_get d k else None)"
  unfolding dict_get_def by (induction d) auto

lemma dict_get_append:
  "dict_get (d @ [(k, v)]) k' =
     (case dict_get d k' of Some x \<Rightarrow> Some x | None \<Rightarrow> if k' = k then Some v else None)"
  unfolding dict_get_def by (induction d) auto

lemma dict_contains_get: "dict_contains d k \<longleftrightarrow> dict_get d k \<noteq> None"
  by (simp add: dict_contains_def dict_get_def map_of_eq_None_iff)

lemma convert_lookup:
  assumes dist: "distinct (map fst raw)"
    and ok: "dict_get raw ''extras'' = None \<and> old = [] \<or> dict_get raw ''extras'' = Some (PList old)"
  shows "\<exists>pkg. convert_to_extras raw = Inr pkg \<and>
           (\<forall>k. dict_get pkg k =
                  (if k = ''extras'' then Some (PList (old @ map extras_pair (unrecognized raw)))
                   else if k \<in> set DEFAULT_ATTRIBUTES then dict_get raw k else None))"
proof -
  let ?ex = "PList (old @ map extras_pair (unrecognized raw))"
  from ok show ?thesis
  proof
    assume a: "dict_get raw ''extras'' = None \<and> old = []"
    have "\<forall>k. dict_get (filter (\<lambda>kv. fst kv \<in> set DEFAULT_ATTRIBUTES) raw @ [(''extras'', ?ex)]) k =
            (if k = ''extras'' then Some ?ex
             else if k \<in> set DEFAULT_ATTRIBUTES then dict_get raw k else None)"
      using a dict_get_filter[of "\<lambda>k. k \<in> set DEFAULT_ATTRIBUTES" raw]
      by (auto simp: dict_get_append split: option.splits)
    then show ?thesis using convert_without_extras(2)[OF dist] a by simp
  next
    assume a: "dict_get raw ''extras'' = Some (PList old)"
    have "\<forall>k. dict_get (filter (\<lambda>kv. fst kv \<in> set DEFAULT_ATTRIBUTES) (dict_set raw ''extras'' ?ex)) k =
            (if k = ''extras'' then Some ?ex
             else if k \<in> set DEFAULT_ATTRIBUTES then dict_get raw k else None)"
      using extras_recognized
        dict_get_filter[of "\<lambda>k. k \<in> set DEFAULT_ATTRIBUTES" "dict_set raw ''extras'' ?ex"]
      by (simp add: dict_get_set)
    then show ?thesis using convert_with_extras[OF dist a] by simp
  qed
qed

lemma pairs_distinct:
  assumes "distinct (map fst raw)"
  shows "distinct (map extras_pair (unrecognized raw))"
proof -
  have "distinct (unrecognized raw)"
    using assms by (simp add: unrecognized_def distinct_map)
  moreover have "inj_on extras_pair (set (unrecognized raw))"
    by (auto simp: inj_on_def extras_pair_def)
  ultimately show ?thesis by (simp add: distinct_map)
qed

lemma count_list_distinct: "distinct xs \<Longrightarrow> x \<in> set xs \<Longrightarrow> count_list xs x = 1"
  by (induction xs) auto

lemma pair_in_pairs:
  "PTuple [PStr k, x] \<in> set (map extras_pair (unrecognized raw))
     \<longleftrightarrow> (k, x) \<in> set raw \<and> k \<notin> set DEFAULT_ATTRIBUTES"
  by (auto simp: extras_pair_def unrecognized_def image_iff)

section \<open>Properties of the import stage\<close>

lemma import_stage_Inr:
  assumes "import_stage env ho = Inr pkg"
  obtains pkg0 pkg1 l tv ts ver ver' title t where
    "load env (content ho) = Inr pkg0"
    "convert_to_extras pkg0 = Inr pkg1"
    "l = (case dict_get (set_config (config (source ho))) ''license'' of
            Some l \<Rightarrow> l
          | None \<Rightarrow> (case default_license env of Some l \<Rightarrow> l | None \<Rightarrow> PStr []))"
    "dict_get pkg1 ''tags'' = Some tv" "py_iter tv = Inr ts"
    "dict_get pkg1 ''version'' = Some ver" "py_slice100 ver = Inr ver'"
    "dict_get pkg1 ''title'' = Some title" "format_s (py_repr env) title = Inr t"
    "pkg = dict_set (dict_set (dict_set (dict_set (dict_set pkg1
             ''url'' (PStr (rstrip_slash (url (source ho)) @ get_catalog_path (guid ho))))
             ''license_id'' l)
             ''tags'' (PList (munge_tags (munge_tag env) ts)))
             ''version'' ver')
             ''resources''
             (PList
                [PDict [(''url'', PStr (rstrip_slash (url (source ho)) @ get_ddi_api (guid ho))),
                        (''name'', PStr (''DDI XML of '' @ t)),
                        (''format'', PStr ''xml'')],
                 PDict [(''url'', PStr (rstrip_slash (url (source ho)) @ get_catalog_path (guid ho))),
                        (''name'', PStr ''NADA catalog entry''),
                        (''format'', PStr ''html'')]])"
  using assms
  unfolding import_stage_def Let_def
  by (auto simp: dict_get_set split: sum.splits option.splits)

lemma extras_loop_not_list:
  assumes "dict_get d ''extras'' = Some v" "\<forall>xs. v \<noteq> PList xs"
    and "\<exists>k\<in>set ks. k \<notin> set DEFAULT_ATTRIBUTES"
  shows "extras_loop ks d dels = Inl AttributeError"
  using assms
proof (induction ks arbitrary: dels)
  case Nil
  then show ?case by simp
next
  case (Cons key keys)
  then show ?case by (cases v) auto
qed

lemma convert_not_list:
  assumes "dict_get d ''extras'' = Some v" "\<forall>xs. v \<noteq> PList xs" "unrecognized d \<noteq> []"
  shows "convert_to_extras d = Inl AttributeError"
proof -
  have c: "dict_contains d ''extras''" using assms(1) by (simp add: dict_contains_get)
  have "\<exists>k\<in>set (dict_keys d). k \<notin> set DEFAULT_ATTRIBUTES"
    using assms(3) by (auto simp: unrecognized_def dict_keys_def filter_empty_conv)
  from extras_loop_not_list[OF assms(1,2) this] show ?thesis
    using c by (simp add: convert_to_extras_def)
qed

lemma convert_Inr_lookup:
  assumes dist: "distinct (map fst raw)" and conv: "convert_to_extras raw = Inr pkg"
    and un: "unrecognized raw \<noteq> []"
  shows "\<exists>old. (dict_get raw ''extras'' = None \<and> old = [] \<or> dict_get raw ''extras'' = Some (PList old)) \<and>
           (\<forall>k. dict_get pkg k =
                  (if k = ''extras'' then Some (PList (old @ map extras_pair (unrecognized raw)))
                   else if k \<in> set DEFAULT_ATTRIBUTES then dict_get raw k else None))"
proof (cases "dict_get raw ''extras''")
  case None
  then show ?thesis using convert_lookup[OF dist, of "[]"] conv by auto
next
  case (Some v)
  show ?thesis
  proof (cases "\<exists>xs. v = PList xs")
    case True
    then obtain xs where "v = PList xs" by blast
    then show ?thesis using convert_lookup[OF dist, of xs] conv Some by auto
  next
    case False
    then show ?thesis using convert_not_list[OF Some _ un] conv by simp
  qed
qed

lemma singleton_list: "distinct xs \<Longrightarrow> set xs = {a} \<Longrightarrow> xs = [a]"
  by (cases xs) (auto simp: insert_eq_iff dest: subset_singletonD)

lemma dict_get_iff: "distinct (map fst d) \<Longrightarrow> dict_get d k = Some v \<longleftrightarrow> (k, v) \<in> set d"
  by (simp add: dict_get_def)

lemma dict_get_None_iff: "dict_get d k = None \<longleftrightarrow> k \<notin> fst ` set d"
  by (simp add: dict_get_def map_of_eq_None_iff)

lemma rstrip_example: "rstrip_slash ''http://nada.example/'' = ''http://nada.example''"
  by (simp add: rstrip_slash_def)

lemma import_example: "import_stage env_with_resources example_object = Inr pkg_with_resources"
  by (simp add: import_stage_def env_with_resources_def example_object_def example_source_def
        raw_with_resources_def convert_to_extras_def set_config_def HARVEST_USER_def
        dict_contains_def dict_keys_def dict_get_def dict_set_def dict_del_def
        DEFAULT_ATTRIBUTES_def rstrip_slash_def get_catalog_path_def get_ddi_api_def
        pkg_with_resources_def)

section \<open>Properties of the endpoint builder\<close>

lemma str_int_small: "str_int 1 = ''1''" "str_int 2 = ''2''" "str_int 3 = ''3''" "str_int 25 = ''25''"
  by (simp_all add: str_int_def str_nat.simps digit_char_def)

lemma lookup_key:
  "map_of ACCESS_TYPES k = Some c \<Longrightarrow> access_types_lookup (PStr k) = Inr c"
  by (simp add: access_types_lookup_def)

lemma lookup_no_key:
  "k \<notin> set (map fst ACCESS_TYPES) \<Longrightarrow> access_types_lookup (PStr k) = Inl KeyError"
proof -
  assume "k \<notin> set (map fst ACCESS_TYPES)"
  then have "map_of ACCESS_TYPES k = None" by (simp add: map_of_eq_None_iff)
  then show ?thesis by (simp add: access_types_lookup_def)
qed

lemma public_use: "get_search_api repr (PStr ''public_use'') n =
   Inr (''/index.php/api/v2/catalog/search/format/json/?dtype[]=2&page='' @ str_int n)"
  by (simp add: get_search_api_def access_types_lookup_def ACCESS_TYPES_def str_int_small)

lemma unhashable_access_type:
  "get_search_api repr (PList xs) n = Inl TypeError"
  "dict_get cfg ''access_type'' = Some (PList xs) \<Longrightarrow>
     build_api_url repr cfg base_url n = Inl TypeError"
  by (simp_all add: get_search_api_def build_api_url_def access_types_lookup_def)

section \<open>Properties of the gather stage\<close>

lemma save_rows_acc:
  "save_rows rows ids = (fst (save_rows rows []), ids @ snd (save_rows rows []))"
proof (induction rows arbitrary: ids)
  case Nil
  then show ?case by simp
next
  case (Cons row rows)
  show ?case
  proof (cases "py_getitem row ''id''")
    case (Inl e)
    then show ?thesis by simp
  next
    case (Inr g)
    then show ?thesis using Cons[of "ids @ [g]"] Cons[of "[g]"] by simp
  qed
qed

lemma process_page_acc:
  "process_page fetch int_str u ids =
     (fst (process_page fetch int_str u []), ids @ snd (process_page fetch int_str u []))"
proof (cases "fetch u")
  case (Inl e)
  then show ?thesis by (simp add: process_page_def)
next
  case data: (Inr data)
  show ?thesis
  proof (cases "py_getitem data ''rows''")
    case (Inl e)
    then show ?thesis using data by (simp add: process_page_def)
  next
    case rs: (Inr rs)
    show ?thesis
    proof (cases "py_iter rs")
      case (Inl e)
      then show ?thesis using data rs by (simp add: process_page_def)
    next
      case rows: (Inr rows)
      obtain r g where s0: "save_rows rows [] = (r, g)" by (cases "save_rows rows []")
      then have s: "save_rows rows ids = (r, ids @ g)"
        using save_rows_acc[of rows ids] by simp
      show ?thesis using data rs rows s0 s
        by (cases r) (simp_all add: process_page_def)
    qed
  qed
qed

lemma save_rows_ids: "save_rows (map row_of g) [] = (None, g)"
proof -
  have "save_rows (map row_of g) ids = (None, ids @ g)" for ids
    by (induction g arbitrary: ids) (simp_all add: row_of_def dict_get_def)
  from this[of "[]"] show ?thesis by simp
qed

lemma process_search_page:
  "fetch u = Inr (search_page (map row_of g) offset limit found) \<Longrightarrow>
   process_page fetch int_str u [] = (Inr (offset + limit < found), g)"
  by (simp add: process_page_def search_page_def dict_get_def save_rows_ids continue_gather_def)

lemma gather_page_step:
  assumes "search_url repr src (page st) = Inr u" "process_page fetch int_str u [] = (r, g)"
  shows "gather_page fetch int_str repr src st =
           (r, st\<lparr>api_url := Some u,
                  page := (case r of Inl e \<Rightarrow> page st | Inr c \<Rightarrow> page st + 1),
                  harvest_obj_ids := harvest_obj_ids st @ g,
                  requested := requested st @ [u]\<rparr>)"
  using assms process_page_acc[of fetch int_str u "harvest_obj_ids st"]
  by (cases r) (simp_all add: gather_page_def)

lemma gather_loop_continue:
  assumes "search_url repr src p = Inr u" "process_page fetch int_str u [] = (Inr True, g)"
  shows "gather_loop fetch int_str repr src \<lparr>api_url = a, page = p, harvest_obj_ids = ids, requested = rq\<rparr>
       = gather_loop fetch int_str repr src
           \<lparr>api_url = Some u, page = p + 1, harvest_obj_ids = ids @ g, requested = rq @ [u]\<rparr>"
  using gather_page_step[of repr src "\<lparr>api_url = a, page = p, harvest_obj_ids = ids, requested = rq\<rparr>" u fetch, OF _ assms(2)] assms(1)
  by (subst gather_loop.simps) simp

lemma gather_loop_stop:
  assumes "search_url repr src p = Inr u" "process_page fetch int_str u [] = (Inr False, g)"
  shows "gather_loop fetch int_str repr src \<lparr>api_url = a, page = p, harvest_obj_ids = ids, requested = rq\<rparr>
       = Some \<lparr>requests_made = rq @ [u], saved_objects = ids @ g, gather_errors = [],
               returned = Some (ids @ g)\<rparr>"
  using gather_page_step[of repr src "\<lparr>api_url = a, page = p, harvest_obj_ids = ids, requested = rq\<rparr>" u fetch, OF _ assms(2)] assms(1)
  by (subst gather_loop.simps) (simp add: gather_done_def)

lemma gather_loop_fail:
  assumes "search_url repr src p = Inr u" "process_page fetch int_str u [] = (Inl e, g)"
  shows "gather_loop fetch int_str repr src \<lparr>api_url = a, page = p, harvest_obj_ids = ids, requested = rq\<rparr>
       = Some \<lparr>requests_made = rq @ [u], saved_objects = ids @ g, gather_errors = [(Some u, e)],
               returned = None\<rparr>"
  using gather_page_step[of repr src "\<lparr>api_url = a, page = p, harvest_obj_ids = ids, requested = rq\<rparr>" u fetch, OF _ assms(2)] assms(1)
  by (subst gather_loop.simps) (simp add: gather_failed_def)

lemma gather_loop_run:
  assumes "\<forall>p. lo \<le> p \<and> p < hi \<longrightarrow>
             search_url repr src p = Inr (U p) \<and> process_page fetch int_str (U p) [] = (Inr True, G p)"
    and "lo \<le> hi"
  shows "\<exists>a'. gather_loop fetch int_str repr src
           \<lparr>api_url = a, page = lo, harvest_obj_ids = ids, requested = rq\<rparr>
       = gather_loop fetch int_str repr src
           \<lparr>api_url = a', page = hi, harvest_obj_ids = ids @ concat (map G [lo..hi - 1]),
            requested = rq @ map U [lo..hi - 1]\<rparr>"
  using assms
proof (induction "nat (hi - lo)" arbitrary: lo a ids rq)
  case 0
  then have "lo = hi" by simp
  then show ?case by auto
next
  case (Suc k)
  then have lt: "lo < hi" by linarith
  from Suc.prems lt have
    s: "search_url repr src lo = Inr (U lo)" "process_page fetch int_str (U lo) [] = (Inr True, G lo)"
    by auto
  have k: "k = nat (hi - (lo + 1))" using Suc.hyps(2) by linarith
  have rest: "\<forall>p. lo + 1 \<le> p \<and> p < hi \<longrightarrow>
             search_url repr src p = Inr (U p) \<and> process_page fetch int_str (U p) [] = (Inr True, G p)"
    using Suc.prems(1) by auto
  from Suc.hyps(1)[OF k rest, of "Some (U lo)" "ids @ G lo" "rq @ [U lo]"] lt
  obtain a' where
    "gather_loop fetch int_str repr src
       \<lparr>api_url = Some (U lo), page = lo + 1, harvest_obj_ids = ids @ G lo, requested = rq @ [U lo]\<rparr>
     = gather_loop fetch int_str repr src
       \<lparr>api_url = a', page = hi, harvest_obj_ids = (ids @ G lo) @ concat (map G [lo + 1..hi - 1]),
        requested = (rq @ [U lo]) @ map U [lo + 1..hi - 1]\<rparr>"
    by auto
  moreover have "[lo..hi - 1] = lo # [lo + 1..hi - 1]" using lt by (simp add: upto_rec1)
  ultimately show ?case using gather_loop_continue[OF s, of a ids rq] by auto
qed

lemma gather_stage_pages:
  assumes n: "1 \<le> n"
    and good: "\<forall>p. 1 \<le> p \<and> p < n \<longrightarrow>
             search_url repr src p = Inr (U p) \<and> process_page fetch int_str (U p) [] = (Inr True, G p)"
    and last: "search_url repr src n = Inr (U n)" "process_page fetch int_str (U n) [] = (Inr False, G n)"
  shows "gather_stage fetch int_str repr src =
           Some \<lparr>requests_made = map U [1..n], saved_objects = concat (map G [1..n]),
                 gather_errors = [], returned = Some (concat (map G [1..n]))\<rparr>"
proof -
  from gather_loop_run[OF good n, of None "[]" "[]"] obtain a' where
    "gather_stage fetch int_str repr src = gather_loop fetch int_str repr src
           \<lparr>api_url = a', page = n, harvest_obj_ids = concat (map G [1..n - 1]),
            requested = map U [1..n - 1]\<rparr>"
    by (auto simp: gather_stage_def)
  moreover have "[1..n] = [1..n - 1] @ [n]" using n by (simp add: upto_rec2)
  ultimately show ?thesis using gather_loop_stop[OF last] by simp
qed

lemma gather_stage_fails:
  assumes n: "0 \<le> n"
    and good: "\<forall>p. 1 \<le> p \<and> p < n + 1 \<longrightarrow>
             search_url repr src p = Inr (U p) \<and> process_page fetch int_str (U p) [] = (Inr True, G p)"
    and bad: "search_url repr src (n + 1) = Inr u" "process_page fetch int_str u [] = (Inl e, g)"
  shows "gather_stage fetch int_str repr src =
           Some \<lparr>requests_made = map U [1..n] @ [u], saved_objects = concat (map G [1..n]) @ g,
                 gather_errors = [(Some u, e)], returned = None\<rparr>"
proof -
  have "1 \<le> n + 1" using n by simp
  from gather_loop_run[OF good this, of None "[]" "[]"] obtain a' where
    "gather_stage fetch int_str repr src = gather_loop fetch int_str repr src
           \<lparr>api_url = a', page = n + 1, harvest_obj_ids = concat (map G [1..n]),
            requested = map U [1..n]\<rparr>"
    by (auto simp: gather_stage_def)
  then show ?thesis using gather_loop_fail[OF bad] by simp
qed

lemma gather_loop_diverges:
  assumes "\<forall>p\<ge>1. \<exists>u g. search_url repr src p = Inr u \<and>
                        process_page fetch int_str u [] = (Inr True, g)"
  shows "1 \<le> page st \<Longrightarrow> gather_loop fetch int_str repr src st = None"
proof -
  have never: "f = fetch \<longrightarrow> i = int_str \<longrightarrow> r = repr \<longrightarrow> s = src \<longrightarrow> 1 \<le> page st \<longrightarrow> False"
    if "gather_loop f i r s st = Some y" for f i r s st y
  proof (rule gather_loop.raw_induct[where
        P = "\<lambda>f i r s st y.
               f = fetch \<longrightarrow> i = int_str \<longrightarrow> r = repr \<longrightarrow> s = src \<longrightarrow> 1 \<le> page st \<longrightarrow> False",
        OF _ that])
    fix loop f i r s st y
    assume IH: "\<And>f i r s st y. loop f i r s st = Some y \<Longrightarrow>
                  f = fetch \<longrightarrow> i = int_str \<longrightarrow> r = repr \<longrightarrow> s = src \<longrightarrow> 1 \<le> page st \<longrightarrow> False"
      and body: "(case gather_page f i r s st of
                    (Inl e, st') \<Rightarrow> Some (gather_failed st' e)
                  | (Inr c, st') \<Rightarrow> if c then loop f i r s st' else Some (gather_done st')) = Some y"
    show "f = fetch \<longrightarrow> i = int_str \<longrightarrow> r = repr \<longrightarrow> s = src \<longrightarrow> 1 \<le> page st \<longrightarrow> False"
    proof (intro impI)
      assume eq: "f = fetch" "i = int_str" "r = repr" "s = src" and pg: "1 \<le> page st"
      from assms pg obtain u g where
        u: "search_url repr src (page st) = Inr u"
           "process_page fetch int_str u [] = (Inr True, g)"
        by blast
      let ?st' = "st\<lparr>api_url := Some u, page := page st + 1,
                    harvest_obj_ids := harvest_obj_ids st @ g, requested := requested st @ [u]\<rparr>"
      have "gather_page fetch int_str repr src st = (Inr True, ?st')"
        using gather_page_step[OF u] by simp
      with body eq have "loop fetch int_str repr src ?st' = Some y" by simp
      from IH[OF this] pg show False by simp
    qed
  qed
  assume "1 \<le> page st"
  then have "gather_loop fetch int_str repr src st \<noteq> Some y" for y
    using never[of fetch int_str repr src st y] by blast
  then show "gather_loop fetch int_str repr src st = None"
    by (cases "gather_loop fetch int_str repr src st") auto
qed

lemma gather_stage_diverges:
  assumes "\<forall>p\<ge>1. \<exists>u g. search_url repr src p = Inr u \<and> process_page fetch int_str u [] = (Inr True, g)"
  shows "gather_stage fetch int_str repr src = None"
  unfolding gather_stage_def by (rule gather_loop_diverges[OF assms]) simp

lemma example_search_url: "search_url example_repr example_source p = Inr (example_url p)"
  by (simp add: search_url_def build_api_url_def get_search_api_def access_types_lookup_def
        ACCESS_TYPES_def str_int_small example_source_def set_config_def dict_contains_def
        dict_set_def dict_get_def rstrip_slash_def example_url_def)

lemma example_url_neq: "example_url 1 \<noteq> example_url 2" "example_url 1 \<noteq> example_url 3"
  "example_url 2 \<noteq> example_url 3"
  by (simp_all add: example_url_def str_int_small)

lemma save_rows_prefix:
  "save_rows pre ids = (None, ids') \<Longrightarrow> save_rows (pre @ rest) ids = save_rows rest ids'"
proof (induction pre arbitrary: ids)
  case Nil
  then show ?case by simp
next
  case (Cons row pre)
  then show ?case by (cases "py_getitem row ''id''") simp_all
qed

lemma stuck_pages:
  "\<forall>p\<ge>1. \<exists>u g. search_url example_repr example_source p = Inr u \<and>
                 process_page server_stuck example_int_str u [] = (Inr True, g)"
  using process_search_page[of server_stuck _ "[PStr ''1'']" 0 10 25]
  by (auto simp: example_search_url server_stuck_def)

section \<open>Claims about reclassification\<close>

lemma unrecognized_simps:
  "unrecognized [] = []"
  "unrecognized (kv # d) =
     (if fst kv \<in> set DEFAULT_ATTRIBUTES then unrecognized d else kv # unrecognized d)"
  by (simp_all add: unrecognized_def)

text \<open>
  Claim C10. When the parsed map already has an \<^verbatim>\<open>extras\<close> list, reclassification keeps
  the key, and the pairs of the unrecognized keys are appended after the entries that were
  there, in the iteration order of the map. When the map has no \<^verbatim>\<open>extras\<close> key, the result
  is that of the same map with an empty \<^verbatim>\<open>extras\<close> list added first, so the list holds
  exactly the appended pairs. The key \<^verbatim>\<open>extras\<close> itself is never among the appended pairs.
\<close>

theorem convert_to_extras_appends:
  assumes "distinct (map fst raw)"
  shows "(dict_get raw ''extras'' = Some (PList old) \<longrightarrow>
            (\<exists>pkg. convert_to_extras raw = Inr pkg \<and>
                   dict_get pkg ''extras'' = Some (PList (old @ map extras_pair (unrecognized raw)))))
       \<and> (dict_get raw ''extras'' = None \<longrightarrow>
            convert_to_extras raw = convert_to_extras (raw @ [(''extras'', PList [])]) \<and>
            (\<exists>pkg. convert_to_extras raw = Inr pkg \<and>
                   dict_get pkg ''extras'' = Some (PList ([] @ map extras_pair (unrecognized raw)))))
       \<and> (\<forall>x. PTuple [PStr ''extras'', x] \<notin> set (map extras_pair (unrecognized raw)))"
proof (intro conjI impI allI)
  assume ex: "dict_get raw ''extras'' = Some (PList old)"
  have "dict_get (filter (\<lambda>kv. fst kv \<in> set DEFAULT_ATTRIBUTES)
           (dict_set raw ''extras'' (PList (old @ map extras_pair (unrecognized raw))))) ''extras''
        = Some (PList (old @ map extras_pair (unrecognized raw)))"
    using extras_recognized dict_get_filter[of "\<lambda>k. k \<in> set DEFAULT_ATTRIBUTES" _ "''extras''"]
    by (simp add: dict_get_set)
  then show "\<exists>pkg. convert_to_extras raw = Inr pkg \<and>
                   dict_get pkg ''extras'' = Some (PList (old @ map extras_pair (unrecognized raw)))"
    using convert_with_extras[OF assms ex] by simp
next
  assume ex: "dict_get raw ''extras'' = None"
  show "convert_to_extras raw = convert_to_extras (raw @ [(''extras'', PList [])])"
    using convert_without_extras(1)[OF assms ex] .
  have "dict_get (filter (\<lambda>kv. fst kv \<in> set DEFAULT_ATTRIBUTES) raw
                @ [(''extras'', PList (map extras_pair (unrecognized raw)))]) ''extras''
        = Some (PList (map extras_pair (unrecognized raw)))"
    using ex dict_get_filter[of "\<lambda>k. k \<in> set DEFAULT_ATTRIBUTES" raw "''extras''"]
    by (simp add: dict_get_append)
  then show "\<exists>pkg. convert_to_extras raw = Inr pkg \<and>
                   dict_get pkg ''extras'' = Some (PList ([] @ map extras_pair (unrecognized raw)))"
    using convert_without_extras(2)[OF assms ex] by simp
next
  fix x
  show "PTuple [PStr ''extras'', x] \<notin> set (map extras_pair (unrecognized raw))"
    using extras_recognized by (auto simp: extras_pair_def unrecognized_def)
qed

theorem convert_to_extras_appends_witness:
  "distinct (map fst raw_with_extras)
   \<and> dict_get raw_with_extras ''extras'' = Some (PList [PStr ''e''])
   \<and> (\<exists>pkg. convert_to_extras raw_with_extras = Inr pkg \<and>
            dict_get pkg ''extras'' =
              Some (PList [PStr ''e'', PTuple [PStr ''foo'', PStr ''a''], PTuple [PStr ''bar'', PInt 2]]))
   \<and> distinct (map fst raw_without_extras)
   \<and> dict_get raw_without_extras ''extras'' = None
   \<and> (\<exists>pkg. convert_to_extras raw_without_extras = Inr pkg \<and>
            dict_get pkg ''extras'' =
              Some (PList [PTuple [PStr ''foo'', PStr ''a''], PTuple [PStr ''bar'', PInt 2]]))"
proof -
  have d1: "distinct (map fst raw_with_extras)" by (simp add: raw_with_extras_def)
  have d2: "distinct (map fst raw_without_extras)" by (simp add: raw_without_extras_def)
  have e1: "dict_get raw_with_extras ''extras'' = Some (PList [PStr ''e''])"
    by (simp add: raw_with_extras_def dict_get_def)
  have e2: "dict_get raw_without_extras ''extras'' = None"
    by (simp add: raw_without_extras_def dict_get_def)
  have u1: "map extras_pair (unrecognized raw_with_extras)
              = [PTuple [PStr ''foo'', PStr ''a''], PTuple [PStr ''bar'', PInt 2]]"
    by (simp add: raw_with_extras_def unrecognized_simps extras_pair_def DEFAULT_ATTRIBUTES_def)
  have u2: "map extras_pair (unrecognized raw_without_extras)
              = [PTuple [PStr ''foo'', PStr ''a''], PTuple [PStr ''bar'', PInt 2]]"
    by (simp add: raw_without_extras_def unrecognized_simps extras_pair_def DEFAULT_ATTRIBUTES_def)
  have w1: "\<exists>pkg. convert_to_extras raw_with_extras = Inr pkg \<and>
            dict_get pkg ''extras'' =
              Some (PList ([PStr ''e''] @ map extras_pair (unrecognized raw_with_extras)))"
    using convert_to_extras_appends[OF d1, of "[PStr ''e'']"] e1 by blast
  have w2: "\<exists>pkg. convert_to_extras raw_without_extras = Inr pkg \<and>
            dict_get pkg ''extras'' =
              Some (PList ([] @ map extras_pair (unrecognized raw_without_extras)))"
    using convert_to_extras_appends[OF d2, of "[]"] e2 by blast
  from w1 have w1': "\<exists>pkg. convert_to_extras raw_with_extras = Inr pkg \<and>
            dict_get pkg ''extras'' =
              Some (PList [PStr ''e'', PTuple [PStr ''foo'', PStr ''a''], PTuple [PStr ''bar'', PInt 2]])"
    unfolding u1 by simp
  from w2 have w2': "\<exists>pkg. convert_to_extras raw_without_extras = Inr pkg \<and>
            dict_get pkg ''extras'' =
              Some (PList [PTuple [PStr ''foo'', PStr ''a''], PTuple [PStr ''bar'', PInt 2]])"
    unfolding u2 by simp
  show ?thesis
    using d1 d2 e1 e2 w1' w2' by blast
qed

text \<open>
  Claim C1, as stated, fails on a parsed map whose \<^verbatim>\<open>extras\<close> list already holds the pair
  of one of its unrecognized keys: the pair is appended once more, so the key occurs twice
  in \<^verbatim>\<open>extras\<close>.
\<close>

theorem convert_to_extras_repeats_pair:
  "convert_to_extras raw_repeated_pair =
     Inr [(''extras'', PList [PTuple [PStr ''foo'', PStr ''a''], PTuple [PStr ''foo'', PStr ''a'']])]"
  by (simp add: raw_repeated_pair_def convert_to_extras_def dict_contains_def dict_keys_def
        dict_get_def dict_set_def dict_del_def DEFAULT_ATTRIBUTES_def)

text \<open>
  Claim C1, amended. Let the parsed map have distinct keys, and let its \<^verbatim>\<open>extras\<close> entry be
  absent, or a list \<open>old\<close> that holds no pair \<open>(k, x)\<close> for a key \<open>k\<close> of the map. Then
  reclassification succeeds, and for every entry \<open>(k, v)\<close> of the map: a recognized key is
  still a top-level key, with its value when it is not \<^verbatim>\<open>extras\<close> itself, and no pair of
  \<^verbatim>\<open>extras\<close> has it as key; an unrecognized key is no top-level key any more, the pair
  \<open>(k, v)\<close> occurs exactly once in \<^verbatim>\<open>extras\<close>, and no other pair there has the key \<open>k\<close>.
\<close>

theorem convert_to_extras_partition:
  assumes dist: "distinct (map fst raw)"
    and ok: "dict_get raw ''extras'' = None \<and> old = [] \<or> dict_get raw ''extras'' = Some (PList old)"
    and fresh: "\<forall>k\<in>set (dict_keys raw). \<forall>x. PTuple [PStr k, x] \<notin> set old"
  shows "\<exists>pkg ex. convert_to_extras raw = Inr pkg \<and> dict_get pkg ''extras'' = Some (PList ex) \<and>
           (\<forall>(k, v)\<in>set raw.
              if k \<in> set DEFAULT_ATTRIBUTES
              then dict_contains pkg k \<and> (k \<noteq> ''extras'' \<longrightarrow> dict_get pkg k = Some v) \<and>
                   (\<forall>x. PTuple [PStr k, x] \<notin> set ex)
              else \<not> dict_contains pkg k \<and> count_list ex (PTuple [PStr k, v]) = 1 \<and>
                   (\<forall>x. PTuple [PStr k, x] \<in> set ex \<longrightarrow> x = v))"
proof -
  let ?ex = "old @ map extras_pair (unrecognized raw)"
  from convert_lookup[OF dist ok] obtain pkg where
    conv: "convert_to_extras raw = Inr pkg" and
    look: "\<And>k. dict_get pkg k =
                  (if k = ''extras'' then Some (PList ?ex)
                   else if k \<in> set DEFAULT_ATTRIBUTES then dict_get raw k else None)"
    by blast
  have per: "(if k \<in> set DEFAULT_ATTRIBUTES
              then dict_contains pkg k \<and> (k \<noteq> ''extras'' \<longrightarrow> dict_get pkg k = Some v) \<and>
                   (\<forall>x. PTuple [PStr k, x] \<notin> set ?ex)
              else \<not> dict_contains pkg k \<and> count_list ?ex (PTuple [PStr k, v]) = 1 \<and>
                   (\<forall>x. PTuple [PStr k, x] \<in> set ?ex \<longrightarrow> x = v))"
    if kv: "(k, v) \<in> set raw" for k v
  proof -
    have get: "dict_get raw k = Some v" using dist kv by (simp add: dict_get_def)
    have key: "k \<in> set (dict_keys raw)" using kv by (force simp: dict_keys_def)
    have notold: "PTuple [PStr k, x] \<notin> set old" for x using fresh key by blast
    show ?thesis
    proof (cases "k \<in> set DEFAULT_ATTRIBUTES")
      case True
      then show ?thesis
        using get notold look[of k] pair_in_pairs[of k _ raw]
        by (auto simp: dict_contains_get)
    next
      case False
      then have ne: "k \<noteq> ''extras''" using extras_recognized by auto
      have "PTuple [PStr k, v] \<in> set (map extras_pair (unrecognized raw))"
        using pair_in_pairs[of k v raw] kv False by simp
      then have "count_list (map extras_pair (unrecognized raw)) (PTuple [PStr k, v]) = 1"
        using pairs_distinct[OF dist] by (rule count_list_distinct[rotated])
      moreover have "count_list old (PTuple [PStr k, v]) = 0"
        using notold by (simp add: count_list_0_iff)
      ultimately have cnt: "count_list ?ex (PTuple [PStr k, v]) = 1" by simp
      have uniq: "x = v" if "PTuple [PStr k, x] \<in> set ?ex" for x
      proof -
        from that notold have "(k, x) \<in> set raw" using pair_in_pairs[of k x raw] by auto
        then have "dict_get raw k = Some x" using dist by (simp add: dict_get_def)
        with get show ?thesis by simp
      qed
      show ?thesis using False ne look[of k] cnt uniq by (auto simp: dict_contains_get)
    qed
  qed
  have "\<forall>kv\<in>set raw. case kv of (k, v) \<Rightarrow>
              if k \<in> set DEFAULT_ATTRIBUTES
              then dict_contains pkg k \<and> (k \<noteq> ''extras'' \<longrightarrow> dict_get pkg k = Some v) \<and>
                   (\<forall>x. PTuple [PStr k, x] \<notin> set ?ex)
              else \<not> dict_contains pkg k \<and> count_list ?ex (PTuple [PStr k, v]) = 1 \<and>
                   (\<forall>x. PTuple [PStr k, x] \<in> set ?ex \<longrightarrow> x = v)"
  proof
    fix kv assume "kv \<in> set raw"
    then have "(fst kv, snd kv) \<in> set raw" by simp
    from per[OF this] show "case kv of (k, v) \<Rightarrow>
              if k \<in> set DEFAULT_ATTRIBUTES
              then dict_contains pkg k \<and> (k \<noteq> ''extras'' \<longrightarrow> dict_get pkg k = Some v) \<and>
                   (\<forall>x. PTuple [PStr k, x] \<notin> set ?ex)
              else \<not> dict_contains pkg k \<and> count_list ?ex (PTuple [PStr k, v]) = 1 \<and>
                   (\<forall>x. PTuple [PStr k, x] \<in> set ?ex \<longrightarrow> x = v)"
      by (simp only: case_prod_beta)
  qed
  moreover have "dict_get pkg ''extras'' = Some (PList ?ex)" using look[of "''extras''"] by simp
  ultimately show ?thesis using conv by blast
qed

theorem convert_to_extras_partition_witness:
  "distinct (map fst raw_with_extras)
   \<and> dict_get raw_with_extras ''extras'' = Some (PList [PStr ''e''])
   \<and> (\<exists>pkg ex. convert_to_extras raw_with_extras = Inr pkg \<and>
          dict_get pkg ''extras'' = Some (PList ex) \<and>
          dict_contains pkg ''id'' \<and> dict_get pkg ''id'' = Some (PStr ''1'') \<and>
          dict_get pkg ''title'' = Some (PStr ''T'') \<and>
          dict_get pkg ''foo'' = None \<and>
          count_list ex (PTuple [PStr ''foo'', PStr ''a'']) = 1 \<and>
          dict_get pkg ''bar'' = None \<and>
          count_list ex (PTuple [PStr ''bar'', PInt 2]) = 1)"
proof -
  have d: "distinct (map fst raw_with_extras)" by (simp add: raw_with_extras_def)
  have e: "dict_get raw_with_extras ''extras'' = None \<and> [PStr ''e''] = []
           \<or> dict_get raw_with_extras ''extras'' = Some (PList [PStr ''e''])"
    by (simp add: raw_with_extras_def dict_get_def)
  have f: "\<forall>k\<in>set (dict_keys raw_with_extras). \<forall>x. PTuple [PStr k, x] \<notin> set [PStr ''e'']"
    by simp
  have m: "(''id'', PStr ''1'') \<in> set raw_with_extras" "(''title'', PStr ''T'') \<in> set raw_with_extras"
    "(''foo'', PStr ''a'') \<in> set raw_with_extras" "(''bar'', PInt 2) \<in> set raw_with_extras"
    by (simp_all add: raw_with_extras_def)
  have r: "''id'' \<in> set DEFAULT_ATTRIBUTES" "''title'' \<in> set DEFAULT_ATTRIBUTES"
    "''foo'' \<notin> set DEFAULT_ATTRIBUTES" "''bar'' \<notin> set DEFAULT_ATTRIBUTES"
    by (simp_all add: DEFAULT_ATTRIBUTES_def)
  from convert_to_extras_partition[OF d e f] obtain pkg ex where
    c: "convert_to_extras raw_with_extras = Inr pkg" "dict_get pkg ''extras'' = Some (PList ex)"
    and a: "\<forall>(k, v)\<in>set raw_with_extras.
              if k \<in> set DEFAULT_ATTRIBUTES
              then dict_contains pkg k \<and> (k \<noteq> ''extras'' \<longrightarrow> dict_get pkg k = Some v) \<and>
                   (\<forall>x. PTuple [PStr k, x] \<notin> set ex)
              else \<not> dict_contains pkg k \<and> count_list ex (PTuple [PStr k, v]) = 1 \<and>
                   (\<forall>x. PTuple [PStr k, x] \<in> set ex \<longrightarrow> x = v)"
    by blast
  have "dict_contains pkg ''id'' \<and> dict_get pkg ''id'' = Some (PStr ''1'')"
    using bspec[OF a m(1)] r by simp
  moreover have "dict_get pkg ''title'' = Some (PStr ''T'')"
    using bspec[OF a m(2)] r by simp
  moreover have "dict_get pkg ''foo'' = None \<and> count_list ex (PTuple [PStr ''foo'', PStr ''a'']) = 1"
    using bspec[OF a m(3)] r by (simp add: dict_contains_get)
  moreover have "dict_get pkg ''bar'' = None \<and> count_list ex (PTuple [PStr ''bar'', PInt 2]) = 1"
    using bspec[OF a m(4)] r by (simp add: dict_contains_get)
  ultimately show ?thesis using c d e by blast
qed

section \<open>Claims about the import stage\<close>

text \<open>
  Claim C7. Normalization sets the \<^verbatim>\<open>url\<close> of the record to the catalog page of the
  harvest object, \<^verbatim>\<open>{base_url}/index.php/catalog/{guid}\<close>, where the base URL is the source
  URL without trailing slashes. Every record that the stage produces has this \<^verbatim>\<open>url\<close>; and
  the stage does produce a record, with this \<^verbatim>\<open>url\<close>, for every parsed map that has
  \<^verbatim>\<open>tags\<close> that can be iterated, a \<^verbatim>\<open>version\<close> that can be sliced, a \<^verbatim>\<open>title\<close> that can
  be formatted and no \<^verbatim>\<open>extras\<close> other than a list, whatever \<^verbatim>\<open>url\<close> the map has or
  lacks.
\<close>

theorem import_stage_url:
  "(\<forall>pkg. import_stage env ho = Inr pkg \<longrightarrow>
      dict_get pkg ''url'' =
        Some (PStr (rstrip_slash (url (source ho)) @ ''/index.php/catalog/'' @ guid ho)))
   \<and> (load env (content ho) = Inr raw \<and> distinct (map fst raw) \<and>
      (dict_get raw ''extras'' = None \<and> old = [] \<or> dict_get raw ''extras'' = Some (PList old)) \<and>
      dict_get raw ''tags'' = Some tv \<and> py_iter tv = Inr ts \<and>
      dict_get raw ''version'' = Some ver \<and> py_slice100 ver = Inr ver' \<and>
      dict_get raw ''title'' = Some title \<and> format_s (py_repr env) title = Inr t
      \<longrightarrow> (\<exists>pkg. import_stage env ho = Inr pkg \<and>
            dict_get pkg ''url'' =
              Some (PStr (rstrip_slash (url (source ho)) @ ''/index.php/catalog/'' @ guid ho))))"
proof (intro conjI allI impI)
  fix pkg assume "import_stage env ho = Inr pkg"
  then show "dict_get pkg ''url'' =
        Some (PStr (rstrip_slash (url (source ho)) @ ''/index.php/catalog/'' @ guid ho))"
    by (elim import_stage_Inr) (simp add: dict_get_set get_catalog_path_def)
next
  assume a: "load env (content ho) = Inr raw \<and> distinct (map fst raw) \<and>
      (dict_get raw ''extras'' = None \<and> old = [] \<or> dict_get raw ''extras'' = Some (PList old)) \<and>
      dict_get raw ''tags'' = Some tv \<and> py_iter tv = Inr ts \<and>
      dict_get raw ''version'' = Some ver \<and> py_slice100 ver = Inr ver' \<and>
      dict_get raw ''title'' = Some title \<and> format_s (py_repr env) title = Inr t"
  then have D: "distinct (map fst raw)"
    and E: "dict_get raw ''extras'' = None \<and> old = [] \<or> dict_get raw ''extras'' = Some (PList old)"
    by simp_all
  from convert_lookup[OF D E] obtain pkg1 where
    conv: "convert_to_extras raw = Inr pkg1" and
    look: "\<And>k. dict_get pkg1 k =
                  (if k = ''extras'' then Some (PList (old @ map extras_pair (unrecognized raw)))
                   else if k \<in> set DEFAULT_ATTRIBUTES then dict_get raw k else None)"
    by blast
  have l: "dict_get pkg1 ''tags'' = Some tv" "dict_get pkg1 ''version'' = Some ver"
    "dict_get pkg1 ''title'' = Some title"
    using a by (simp_all add: look DEFAULT_ATTRIBUTES_def)
  have "\<exists>pkg. import_stage env ho = Inr pkg"
    unfolding import_stage_def Let_def
    using a by (simp add: conv l dict_get_set split: option.splits)
  then obtain pkg where p: "import_stage env ho = Inr pkg" by blast
  then have "dict_get pkg ''url'' =
        Some (PStr (rstrip_slash (url (source ho)) @ ''/index.php/catalog/'' @ guid ho))"
    by (elim import_stage_Inr) (simp add: dict_get_set get_catalog_path_def)
  with p show "\<exists>pkg. import_stage env ho = Inr pkg \<and>
            dict_get pkg ''url'' =
              Some (PStr (rstrip_slash (url (source ho)) @ ''/index.php/catalog/'' @ guid ho))"
    by blast
qed

theorem import_stage_url_witness:
  "dict_get raw_with_url ''url'' = Some (PStr ''http://parser.example/x'')
   \<and> load env_with_url (content example_object) = Inr raw_with_url
   \<and> (\<exists>pkg. import_stage env_with_url example_object = Inr pkg \<and>
          dict_get pkg ''url'' = Some (PStr ''http://nada.example/index.php/catalog/639''))"
proof -
  have u: "dict_get raw_with_url ''url'' = Some (PStr ''http://parser.example/x'')"
    by (simp add: raw_with_url_def dict_get_def)
  have h: "load env_with_url (content example_object) = Inr raw_with_url \<and>
      distinct (map fst raw_with_url) \<and>
      (dict_get raw_with_url ''extras'' = None \<and> [] = [] \<or>
       dict_get raw_with_url ''extras'' = Some (PList [])) \<and>
      dict_get raw_with_url ''tags'' = Some (PList []) \<and> py_iter (PList []) = Inr [] \<and>
      dict_get raw_with_url ''version'' = Some (PStr ''1'') \<and>
      py_slice100 (PStr ''1'') = Inr (PStr ''1'') \<and>
      dict_get raw_with_url ''title'' = Some (PStr ''T'') \<and>
      format_s (py_repr env_with_url) (PStr ''T'') = Inr ''T''"
    by (simp add: env_with_url_def raw_with_url_def dict_get_def)
  note t = import_stage_url[where env = env_with_url and ho = example_object
      and raw = raw_with_url and old = "[]", THEN conjunct2, THEN mp, OF h]
  have b: "rstrip_slash (url (source example_object)) @ ''/index.php/catalog/'' @ guid example_object
           = ''http://nada.example/index.php/catalog/639''"
    by (simp add: example_object_def example_source_def rstrip_example)
  from t have "\<exists>pkg. import_stage env_with_url example_object = Inr pkg \<and>
          dict_get pkg ''url'' = Some (PStr ''http://nada.example/index.php/catalog/639'')"
    unfolding b .
  with u h show ?thesis by blast
qed

text \<open>
  Claim C2, as stated, fails in its last part: resources that the parsed document supplies
  are not discarded. \<^verbatim>\<open>resources\<close> is not a recognized attribute, so reclassification
  moves it into \<^verbatim>\<open>extras\<close>, where the record still carries it.
\<close>

theorem import_stage_keeps_source_resources:
  "import_stage env_with_resources example_object =
     Inr [(''title'', PStr ''T''), (''tags'', PList []), (''version'', PStr ''1''),
          (''extras'', PList [PTuple [PStr ''resources'', PList [PStr ''r'']]]),
          (''url'', PStr ''http://nada.example/index.php/catalog/639''),
          (''license_id'', PStr []),
          (''resources'',
           PList [PDict [(''url'', PStr ''http://nada.example/index.php/catalog/ddi/639''),
                         (''name'', PStr ''DDI XML of T''), (''format'', PStr ''xml'')],
                  PDict [(''url'', PStr ''http://nada.example/index.php/catalog/639''),
                         (''name'', PStr ''NADA catalog entry''), (''format'', PStr ''html'')]])]"
  using import_example by (simp add: pkg_with_resources_def)

text \<open>
  Claim C2, amended. Whenever normalization produces a record, its \<^verbatim>\<open>resources\<close> field is
  a list of exactly two entries built by the stage: the link to the raw document with format
  \<^verbatim>\<open>xml\<close>, then the link to the catalog page with format \<^verbatim>\<open>html\<close>. A \<^verbatim>\<open>resources\<close>
  value of the parsed map never reaches this field; it is kept as the pair
  \<^verbatim>\<open>(resources, value)\<close> in \<^verbatim>\<open>extras\<close>.
\<close>

theorem import_stage_resources:
  assumes "import_stage env ho = Inr pkg"
  shows "(\<exists>t. dict_get pkg ''resources'' =
            Some (PList
              [PDict [(''url'', PStr (rstrip_slash (url (source ho)) @ ''/index.php/catalog/ddi/'' @ guid ho)),
                      (''name'', PStr (''DDI XML of '' @ t)),
                      (''format'', PStr ''xml'')],
               PDict [(''url'', PStr (rstrip_slash (url (source ho)) @ ''/index.php/catalog/'' @ guid ho)),
                      (''name'', PStr ''NADA catalog entry''),
                      (''format'', PStr ''html'')]]))
       \<and> (\<forall>raw r. load env (content ho) = Inr raw \<and> distinct (map fst raw) \<and>
                  dict_get raw ''resources'' = Some r \<longrightarrow>
                  (\<exists>ex. dict_get pkg ''extras'' = Some (PList ex) \<and>
                        PTuple [PStr ''resources'', r] \<in> set ex))"
proof (intro conjI allI impI)
  show "\<exists>t. dict_get pkg ''resources'' =
            Some (PList
              [PDict [(''url'', PStr (rstrip_slash (url (source ho)) @ ''/index.php/catalog/ddi/'' @ guid ho)),
                      (''name'', PStr (''DDI XML of '' @ t)),
                      (''format'', PStr ''xml'')],
               PDict [(''url'', PStr (rstrip_slash (url (source ho)) @ ''/index.php/catalog/'' @ guid ho)),
                      (''name'', PStr ''NADA catalog entry''),
                      (''format'', PStr ''html'')]])"
    using assms
    by (elim import_stage_Inr) (simp add: dict_get_set get_catalog_path_def get_ddi_api_def)
next
  fix raw r
  assume a: "load env (content ho) = Inr raw \<and> distinct (map fst raw) \<and>
             dict_get raw ''resources'' = Some r"
  from assms obtain pkg1 where
    c: "convert_to_extras raw = Inr pkg1" and
    e: "dict_get pkg ''extras'' = dict_get pkg1 ''extras''"
    using a by (elim import_stage_Inr) (simp add: dict_get_set)
  have in_raw: "(''resources'', r) \<in> set raw"
    using a by (auto simp: dict_get_def dest: map_of_SomeD)
  have nr: "''resources'' \<notin> set DEFAULT_ATTRIBUTES" by (simp add: DEFAULT_ATTRIBUTES_def)
  have mem: "(''resources'', r) \<in> set (unrecognized raw)"
    using in_raw nr by (simp add: unrecognized_def)
  then have un: "unrecognized raw \<noteq> []" by auto
  from convert_Inr_lookup[OF _ c un] a obtain old where
    "dict_get pkg1 ''extras'' = Some (PList (old @ map extras_pair (unrecognized raw)))"
    by auto
  moreover have "PTuple [PStr ''resources'', r] \<in> set (map extras_pair (unrecognized raw))"
    using mem by (force simp: extras_pair_def)
  ultimately show "\<exists>ex. dict_get pkg ''extras'' = Some (PList ex) \<and>
                        PTuple [PStr ''resources'', r] \<in> set ex"
    using e by auto
qed

theorem import_stage_resources_witness:
  "import_stage env_with_resources example_object = Inr pkg_with_resources
   \<and> (\<exists>t. dict_get pkg_with_resources ''resources'' =
            Some (PList
              [PDict [(''url'', PStr ''http://nada.example/index.php/catalog/ddi/639''),
                      (''name'', PStr (''DDI XML of '' @ t)),
                      (''format'', PStr ''xml'')],
               PDict [(''url'', PStr ''http://nada.example/index.php/catalog/639''),
                      (''name'', PStr ''NADA catalog entry''),
                      (''format'', PStr ''html'')]]))
   \<and> load env_with_resources (content example_object) = Inr raw_with_resources
   \<and> distinct (map fst raw_with_resources)
   \<and> dict_get raw_with_resources ''resources'' = Some (PList [PStr ''r''])
   \<and> (\<exists>ex. dict_get pkg_with_resources ''extras'' = Some (PList ex) \<and>
            PTuple [PStr ''resources'', PList [PStr ''r'']] \<in> set ex)"
proof -
  note r = import_stage_resources[OF import_example]
  have h: "load env_with_resources (content example_object) = Inr raw_with_resources
           \<and> distinct (map fst raw_with_resources)
           \<and> dict_get raw_with_resources ''resources'' = Some (PList [PStr ''r''])"
    by (simp add: env_with_resources_def raw_with_resources_def dict_get_def)
  from r have "\<exists>ex. dict_get pkg_with_resources ''extras'' = Some (PList ex) \<and>
            PTuple [PStr ''resources'', PList [PStr ''r'']] \<in> set ex"
    using h by blast
  moreover from r have "\<exists>t. dict_get pkg_with_resources ''resources'' =
            Some (PList
              [PDict [(''url'', PStr ''http://nada.example/index.php/catalog/ddi/639''),
                      (''name'', PStr (''DDI XML of '' @ t)),
                      (''format'', PStr ''xml'')],
               PDict [(''url'', PStr ''http://nada.example/index.php/catalog/639''),
                      (''name'', PStr ''NADA catalog entry''),
                      (''format'', PStr ''html'')]])"
    by (simp add: example_object_def example_source_def rstrip_example)
  ultimately show ?thesis using h import_example by blast
qed

text \<open>
  Claim C6. Let the parser return the map \<^verbatim>\<open>{id: 1, title: T, tags: [Foo Bar, x*200, 42],
  version: v*200, custom_field: Z}\<close>, in whatever iteration order, and let tag munging
  turn \<^verbatim>\<open>Foo Bar\<close> into \<^verbatim>\<open>foo-bar\<close>. Then normalization produces a record whose tags are
  \<^verbatim>\<open>foo-bar\<close> and the munging of \<^verbatim>\<open>x*100\<close> (the integer is dropped, the long tag is cut to
  100 characters before munging), whose version is \<^verbatim>\<open>v*100\<close>, whose \<^verbatim>\<open>extras\<close> is the
  pair \<^verbatim>\<open>(custom_field, Z)\<close>, and which has no top-level \<^verbatim>\<open>custom_field\<close>.
\<close>

theorem import_stage_sample:
  assumes L: "load env (content ho) = Inr raw"
    and D: "distinct (map fst raw)"
    and S: "set raw = set raw_sample"
    and M: "munge_tag env ''Foo Bar'' = ''foo-bar''"
  shows "\<exists>pkg. import_stage env ho = Inr pkg \<and>
           dict_get pkg ''tags'' =
             Some (PList [PStr ''foo-bar'', PStr (munge_tag env (replicate 100 CHR ''x''))]) \<and>
           dict_get pkg ''version'' = Some (PStr (replicate 100 CHR ''v'')) \<and>
           dict_get pkg ''extras'' = Some (PList [PTuple [PStr ''custom_field'', PStr ''Z'']]) \<and>
           \<not> dict_contains pkg ''custom_field''"
proof -
  have tags: "dict_get raw ''tags'' =
                Some (PList [PStr ''Foo Bar'', PStr (replicate 200 CHR ''x''), PInt 42])"
    and ver: "dict_get raw ''version'' = Some (PStr (replicate 200 CHR ''v''))"
    and title: "dict_get raw ''title'' = Some (PStr ''T'')"
    using S by (simp_all add: dict_get_iff[OF D] raw_sample_def)
  have noex: "dict_get raw ''extras'' = None"
    unfolding dict_get_None_iff S by (simp add: raw_sample_def)
  have "set (unrecognized raw) = {(''custom_field'', PStr ''Z'')}"
    unfolding unrecognized_def set_filter S
    by (auto simp: raw_sample_def DEFAULT_ATTRIBUTES_def)
  moreover have "distinct (unrecognized raw)"
    using D by (simp add: unrecognized_def distinct_map)
  ultimately have un: "unrecognized raw = [(''custom_field'', PStr ''Z'')]"
    by (rule singleton_list[rotated])
  from convert_lookup[OF D, of "[]"] noex obtain pkg1 where
    conv: "convert_to_extras raw = Inr pkg1" and
    look: "\<And>k. dict_get pkg1 k =
                  (if k = ''extras'' then Some (PList ([] @ map extras_pair (unrecognized raw)))
                   else if k \<in> set DEFAULT_ATTRIBUTES then dict_get raw k else None)"
    by blast
  have l_tags: "dict_get pkg1 ''tags'' = Some (PList [PStr ''Foo Bar'', PStr (replicate 200 CHR ''x''), PInt 42])"
    and l_ver: "dict_get pkg1 ''version'' = Some (PStr (replicate 200 CHR ''v''))"
    and l_title: "dict_get pkg1 ''title'' = Some (PStr ''T'')"
    and l_extras: "dict_get pkg1 ''extras'' = Some (PList [PTuple [PStr ''custom_field'', PStr ''Z'']])"
    and l_cf: "dict_get pkg1 ''custom_field'' = None"
    using tags ver title un by (simp_all add: look DEFAULT_ATTRIBUTES_def extras_pair_def)
  let ?l = "case dict_get (set_config (config (source ho))) ''license'' of
              Some l \<Rightarrow> l
            | None \<Rightarrow> (case default_license env of Some l \<Rightarrow> l | None \<Rightarrow> PStr [])"
  let ?pkg = "dict_set (dict_set (dict_set (dict_set (dict_set pkg1
             ''url'' (PStr (rstrip_slash (url (source ho)) @ get_catalog_path (guid ho))))
             ''license_id'' ?l)
             ''tags'' (PList [PStr ''foo-bar'', PStr (munge_tag env (replicate 100 CHR ''x''))]))
             ''version'' (PStr (replicate 100 CHR ''v'')))
             ''resources''
             (PList
                [PDict [(''url'', PStr (rstrip_slash (url (source ho)) @ get_ddi_api (guid ho))),
                        (''name'', PStr (''DDI XML of '' @ ''T'')),
                        (''format'', PStr ''xml'')],
                 PDict [(''url'', PStr (rstrip_slash (url (source ho)) @ get_catalog_path (guid ho))),
                        (''name'', PStr ''NADA catalog entry''),
                        (''format'', PStr ''html'')]])"
  have "import_stage env ho = Inr ?pkg"
    unfolding import_stage_def Let_def
    by (simp add: L conv l_tags l_ver l_title dict_get_set M split: option.splits)
  moreover have "dict_get ?pkg ''tags'' =
             Some (PList [PStr ''foo-bar'', PStr (munge_tag env (replicate 100 CHR ''x''))])"
    "dict_get ?pkg ''version'' = Some (PStr (replicate 100 CHR ''v''))"
    "dict_get ?pkg ''extras'' = Some (PList [PTuple [PStr ''custom_field'', PStr ''Z'']])"
    "\<not> dict_contains ?pkg ''custom_field''"
    by (simp_all add: dict_get_set l_extras l_cf dict_contains_get)
  ultimately show ?thesis by blast
qed

theorem import_stage_sample_witness:
  "load env_sample (content example_object) = Inr raw_sample
   \<and> distinct (map fst raw_sample)
   \<and> munge_tag env_sample ''Foo Bar'' = ''foo-bar''
   \<and> (\<exists>pkg. import_stage env_sample example_object = Inr pkg \<and>
           dict_get pkg ''tags'' =
             Some (PList [PStr ''foo-bar'', PStr (replicate 100 CHR ''x'')]) \<and>
           dict_get pkg ''version'' = Some (PStr (replicate 100 CHR ''v'')) \<and>
           dict_get pkg ''extras'' = Some (PList [PTuple [PStr ''custom_field'', PStr ''Z'']]) \<and>
           \<not> dict_contains pkg ''custom_field'')"
proof -
  have l: "load env_sample (content example_object) = Inr raw_sample"
    by (simp add: env_sample_def)
  have d: "distinct (map fst raw_sample)" by (simp add: raw_sample_def)
  have m: "munge_tag env_sample ''Foo Bar'' = ''foo-bar''"
    by (simp add: env_sample_def example_munge_def)
  have x: "munge_tag env_sample (replicate 100 CHR ''x'') = replicate 100 CHR ''x''"
    by (simp add: env_sample_def example_munge_def)
  from import_stage_sample[OF l d refl m] show ?thesis
    unfolding x using l d m by blast
qed

section \<open>Claims about the endpoint builder\<close>

text \<open>
  Claim C8, as stated, fails on the path of the filtered search URL: the code writes
  \<^verbatim>\<open>.../format/json/?dtype[]=c&page=n\<close>, with a slash after \<^verbatim>\<open>json\<close>, where the claim
  has \<^verbatim>\<open>.../format/json?dtype[]=c&page=n\<close>. Access type \<^verbatim>\<open>licensed\<close> has code 3.
\<close>

theorem search_url_has_slash:
  "get_search_api example_repr (PStr ''licensed'') 1 =
     Inr ''/index.php/api/v2/catalog/search/format/json/?dtype[]=3&page=1''
   \<and> get_search_api example_repr (PStr ''licensed'') 1 \<noteq>
     Inr ''/index.php/api/v2/catalog/search/format/json?dtype[]=3&page=1''
   \<and> search_url example_repr example_source 1 =
     Inr ''http://nada.example/index.php/api/v2/catalog/search/format/json/?dtype[]=3&page=1''"
  by (simp add: search_url_def build_api_url_def get_search_api_def access_types_lookup_def
        ACCESS_TYPES_def str_int_small example_source_def set_config_def dict_contains_def
        dict_set_def dict_get_def rstrip_slash_def)

text \<open>
  Claim C8, amended. For every access type of the table with numeric code \<open>c\<close> and every
  page number \<open>n\<close>, the search path built with the filter is
  \<^verbatim>\<open>/index.php/api/v2/catalog/search/format/json/?dtype[]=c&page=n\<close> (a slash follows
  \<^verbatim>\<open>json\<close>), and Discovery requests the base URL followed by it. With no filter
  (access type \<^verbatim>\<open>None\<close>) the path is \<^verbatim>\<open>/index.php/api/v2/catalog/search/format/json?page=n\<close>,
  without that slash and without \<^verbatim>\<open>dtype[]\<close>.
\<close>

theorem search_url_format:
  "(map_of ACCESS_TYPES k = Some (PInt c) \<longrightarrow>
      get_search_api repr (PStr k) n =
        Inr (''/index.php/api/v2/catalog/search/format/json/?dtype[]='' @ str_int c
             @ ''&page='' @ str_int n)
      \<and> (dict_get cfg ''access_type'' = Some (PStr k) \<longrightarrow>
           build_api_url repr cfg base_url n =
             Inr (base_url @ ''/index.php/api/v2/catalog/search/format/json/?dtype[]=''
                  @ str_int c @ ''&page='' @ str_int n)))
   \<and> get_search_api repr PNone n =
        Inr (''/index.php/api/v2/catalog/search/format/json?page='' @ str_int n)
   \<and> (dict_get cfg ''access_type'' = Some PNone \<longrightarrow>
        build_api_url repr cfg base_url n =
          Inr (base_url @ ''/index.php/api/v2/catalog/search/format/json?page='' @ str_int n))"
  by (auto simp: get_search_api_def build_api_url_def lookup_key)

theorem search_url_format_witness:
  "map_of ACCESS_TYPES ''licensed'' = Some (PInt 3)
   \<and> get_search_api example_repr (PStr ''licensed'') 1 =
        Inr ''/index.php/api/v2/catalog/search/format/json/?dtype[]=3&page=1''
   \<and> dict_get [(''access_type'', PStr ''licensed'')] ''access_type'' = Some (PStr ''licensed'')
   \<and> build_api_url example_repr [(''access_type'', PStr ''licensed'')] ''http://nada.example'' 1 =
        Inr ''http://nada.example/index.php/api/v2/catalog/search/format/json/?dtype[]=3&page=1''
   \<and> dict_get [(''access_type'', PNone)] ''access_type'' = Some PNone
   \<and> build_api_url example_repr [(''access_type'', PNone)] ''http://nada.example'' 1 =
        Inr ''http://nada.example/index.php/api/v2/catalog/search/format/json?page=1''"
proof -
  have k: "map_of ACCESS_TYPES ''licensed'' = Some (PInt 3)" by (simp add: ACCESS_TYPES_def)
  have c1: "dict_get [(''access_type'', PStr ''licensed'')] ''access_type'' = Some (PStr ''licensed'')"
    and c2: "dict_get [(''access_type'', PNone)] ''access_type'' = Some PNone"
    by (simp_all add: dict_get_def)
  note t1 = search_url_format[of "''licensed''" 3 example_repr 1
      "[(''access_type'', PStr ''licensed'')]" "''http://nada.example''"]
  note t2 = search_url_format[of "''licensed''" 3 example_repr 1
      "[(''access_type'', PNone)]" "''http://nada.example''"]
  from t1 k c1 have
    "get_search_api example_repr (PStr ''licensed'') 1 =
        Inr ''/index.php/api/v2/catalog/search/format/json/?dtype[]=3&page=1''"
    "build_api_url example_repr [(''access_type'', PStr ''licensed'')] ''http://nada.example'' 1 =
        Inr ''http://nada.example/index.php/api/v2/catalog/search/format/json/?dtype[]=3&page=1''"
    by (simp_all add: str_int_small)
  moreover from t2 c2 have
    "build_api_url example_repr [(''access_type'', PNone)] ''http://nada.example'' 1 =
        Inr ''http://nada.example/index.php/api/v2/catalog/search/format/json?page=1''"
    by (simp add: str_int_small)
  ultimately show ?thesis using k c1 c2 by blast
qed

text \<open>
  Claim C5. For every access type string that is not a key of \<^verbatim>\<open>ACCESS_TYPES\<close> (so it is
  not empty either, the empty string being a key), building the search path fails with
  \<^verbatim>\<open>AccessTypeNotAvailableError\<close>, and the URL that Discovery then builds for the page is
  the one of access type \<^verbatim>\<open>public_use\<close>, code 2, for the same page.
\<close>

theorem invalid_access_type_falls_back:
  assumes "s \<notin> set (map fst ACCESS_TYPES)"
  shows "get_search_api repr (PStr s) n = Inl AccessTypeNotAvailableError
       \<and> (dict_get cfg ''access_type'' = Some (PStr s) \<longrightarrow>
            build_api_url repr cfg base_url n =
              Inr (base_url @ ''/index.php/api/v2/catalog/search/format/json/?dtype[]=2&page=''
                   @ str_int n)
            \<and> build_api_url repr cfg base_url n =
                build_api_url repr (dict_set cfg ''access_type'' (PStr ''public_use'')) base_url n)"
proof -
  have g: "get_search_api repr (PStr s) n = Inl AccessTypeNotAvailableError"
    using lookup_no_key[OF assms] by (simp add: get_search_api_def)
  have "build_api_url repr (dict_set cfg ''access_type'' (PStr ''public_use'')) base_url n
        = Inr (base_url @ ''/index.php/api/v2/catalog/search/format/json/?dtype[]=2&page=''
                   @ str_int n)"
    by (simp add: build_api_url_def dict_get_set public_use)
  then show ?thesis using g by (simp add: build_api_url_def public_use)
qed

theorem invalid_access_type_falls_back_witness:
  "''restricted'' \<notin> set (map fst ACCESS_TYPES)
   \<and> get_search_api example_repr (PStr ''restricted'') 3 = Inl AccessTypeNotAvailableError
   \<and> dict_get [(''access_type'', PStr ''restricted'')] ''access_type'' = Some (PStr ''restricted'')
   \<and> build_api_url example_repr [(''access_type'', PStr ''restricted'')] ''http://nada.example'' 3 =
        Inr ''http://nada.example/index.php/api/v2/catalog/search/format/json/?dtype[]=2&page=3''"
proof -
  have k: "''restricted'' \<notin> set (map fst ACCESS_TYPES)" by (simp add: ACCESS_TYPES_def)
  have c: "dict_get [(''access_type'', PStr ''restricted'')] ''access_type'' = Some (PStr ''restricted'')"
    by (simp add: dict_get_def)
  from invalid_access_type_falls_back[OF k, of example_repr 3
      "[(''access_type'', PStr ''restricted'')]" "''http://nada.example''"] c
  have "get_search_api example_repr (PStr ''restricted'') 3 = Inl AccessTypeNotAvailableError"
    "build_api_url example_repr [(''access_type'', PStr ''restricted'')] ''http://nada.example'' 3 =
        Inr ''http://nada.example/index.php/api/v2/catalog/search/format/json/?dtype[]=2&page=3''"
    by (simp_all add: str_int_small)
  then show ?thesis using k c by blast
qed

section \<open>Claims about the gather stage\<close>

text \<open>
  Claim C3. Discovery starts at page 1 and goes on to the next page exactly when the page
  just read reports \<open>offset + limit < found\<close>: if pages 1 to \<open>n\<close> are delivered and the
  first of them that does not report \<open>offset + limit < found\<close> is page \<open>n\<close>, the stage
  requests exactly the pages 1 to \<open>n\<close>, in order, and returns one item per row of these
  pages. In particular a first page with no rows, offset 0, limit 10 and found 0 ends the
  stage after one request with no item, and three pages of 10, 10 and 5 rows with offsets 0,
  10, 20, limit 10 and found 25 end it after three requests with 25 items.
\<close>

theorem gather_stage_pagination:
  "(1 \<le> n \<and>
    (\<forall>p\<in>{1..n}. search_url repr src p = Inr (U p) \<and>
        fetch (U p) = Inr (search_page (map row_of (G p)) (offset p) (limit p) (found p)) \<and>
        (offset p + limit p < found p) = (p < n))
    \<longrightarrow> gather_stage fetch int_str repr src =
          Some \<lparr>requests_made = map U [1..n], saved_objects = concat (map G [1..n]),
                gather_errors = [], returned = Some (concat (map G [1..n]))\<rparr>)
   \<and> (search_url repr src 1 = Inr u1 \<and> fetch u1 = Inr (search_page [] 0 10 0)
    \<longrightarrow> gather_stage fetch int_str repr src =
          Some \<lparr>requests_made = [u1], saved_objects = [], gather_errors = [],
                returned = Some []\<rparr>)
   \<and> (search_url repr src 1 = Inr u1 \<and> search_url repr src 2 = Inr u2 \<and>
      search_url repr src 3 = Inr u3 \<and>
      fetch u1 = Inr (search_page (map row_of g1) 0 10 25) \<and>
      fetch u2 = Inr (search_page (map row_of g2) 10 10 25) \<and>
      fetch u3 = Inr (search_page (map row_of g3) 20 10 25) \<and>
      length g1 = 10 \<and> length g2 = 10 \<and> length g3 = 5
    \<longrightarrow> gather_stage fetch int_str repr src =
          Some \<lparr>requests_made = [u1, u2, u3], saved_objects = g1 @ g2 @ g3, gather_errors = [],
                returned = Some (g1 @ g2 @ g3)\<rparr>
        \<and> length (g1 @ g2 @ g3) = 25)"
proof (intro conjI impI)
  assume a: "1 \<le> n \<and>
    (\<forall>p\<in>{1..n}. search_url repr src p = Inr (U p) \<and>
        fetch (U p) = Inr (search_page (map row_of (G p)) (offset p) (limit p) (found p)) \<and>
        (offset p + limit p < found p) = (p < n))"
  then have n: "1 \<le> n" by simp
  have pp: "search_url repr src p = Inr (U p) \<and> process_page fetch int_str (U p) [] = (Inr (p < n), G p)"
    if "1 \<le> p" "p \<le> n" for p
  proof -
    from a that have s: "search_url repr src p = Inr (U p)"
      and f: "fetch (U p) = Inr (search_page (map row_of (G p)) (offset p) (limit p) (found p))"
      and c: "(offset p + limit p < found p) = (p < n)" by auto
    from process_search_page[of fetch "U p" "G p" "offset p" "limit p" "found p", OF f] c s
    show ?thesis by simp
  qed
  have good: "\<forall>p. 1 \<le> p \<and> p < n \<longrightarrow>
             search_url repr src p = Inr (U p) \<and> process_page fetch int_str (U p) [] = (Inr True, G p)"
    using pp by auto
  have last: "search_url repr src n = Inr (U n)" "process_page fetch int_str (U n) [] = (Inr False, G n)"
    using pp[of n] n by auto
  show "gather_stage fetch int_str repr src =
          Some \<lparr>requests_made = map U [1..n], saved_objects = concat (map G [1..n]),
                gather_errors = [], returned = Some (concat (map G [1..n]))\<rparr>"
    by (rule gather_stage_pages[OF n good last])
next
  assume a: "search_url repr src 1 = Inr u1 \<and> fetch u1 = Inr (search_page [] 0 10 0)"
  then have f: "fetch u1 = Inr (search_page (map row_of []) 0 10 0)" by simp
  have "gather_stage fetch int_str repr src =
          Some \<lparr>requests_made = map (\<lambda>p. u1) [1..1], saved_objects = concat (map (\<lambda>p. []) [1..1]),
                gather_errors = [], returned = Some (concat (map (\<lambda>p. []) [1..1]))\<rparr>"
    using a process_search_page[of fetch u1 "[]" 0 10 0, OF f]
    by (intro gather_stage_pages) simp_all
  then show "gather_stage fetch int_str repr src =
          Some \<lparr>requests_made = [u1], saved_objects = [], gather_errors = [],
                returned = Some []\<rparr>" by simp
next
  assume a: "search_url repr src 1 = Inr u1 \<and> search_url repr src 2 = Inr u2 \<and>
      search_url repr src 3 = Inr u3 \<and>
      fetch u1 = Inr (search_page (map row_of g1) 0 10 25) \<and>
      fetch u2 = Inr (search_page (map row_of g2) 10 10 25) \<and>
      fetch u3 = Inr (search_page (map row_of g3) 20 10 25) \<and>
      length g1 = 10 \<and> length g2 = 10 \<and> length g3 = 5"
  let ?U = "\<lambda>p::int. if p = 1 then u1 else if p = 2 then u2 else u3"
  let ?G = "\<lambda>p::int. if p = 1 then g1 else if p = 2 then g2 else g3"
  have p1: "process_page fetch int_str u1 [] = (Inr True, g1)"
    and p2: "process_page fetch int_str u2 [] = (Inr True, g2)"
    and p3: "process_page fetch int_str u3 [] = (Inr False, g3)"
    using a process_search_page[of fetch u1 g1 0 10 25] process_search_page[of fetch u2 g2 10 10 25]
      process_search_page[of fetch u3 g3 20 10 25] by simp_all
  have good: "\<forall>p. 1 \<le> p \<and> p < 3 \<longrightarrow>
             search_url repr src p = Inr (?U p) \<and> process_page fetch int_str (?U p) [] = (Inr True, ?G p)"
  proof (intro allI impI)
    fix p :: int assume "1 \<le> p \<and> p < 3"
    then have "p = 1 \<or> p = 2" by arith
    then show "search_url repr src p = Inr (?U p) \<and> process_page fetch int_str (?U p) [] = (Inr True, ?G p)"
      using a p1 p2 by auto
  qed
  have l: "[1..3::int] = [1, 2, 3]" by (simp add: upto_rec1)
  have "gather_stage fetch int_str repr src =
          Some \<lparr>requests_made = map ?U [1..3], saved_objects = concat (map ?G [1..3]),
                gather_errors = [], returned = Some (concat (map ?G [1..3]))\<rparr>"
    using a p3 by (intro gather_stage_pages[OF _ good]) simp_all
  then show "gather_stage fetch int_str repr src =
          Some \<lparr>requests_made = [u1, u2, u3], saved_objects = g1 @ g2 @ g3, gather_errors = [],
                returned = Some (g1 @ g2 @ g3)\<rparr>"
    unfolding l by simp
  show "length (g1 @ g2 @ g3) = 25" using a by simp
qed

theorem gather_stage_pagination_witness:
  "gather_stage server_empty example_int_str example_repr example_source =
     Some \<lparr>requests_made = [example_url 1], saved_objects = [], gather_errors = [],
           returned = Some []\<rparr>
   \<and> gather_stage server_25 example_int_str example_repr example_source =
     Some \<lparr>requests_made = [example_url 1, example_url 2, example_url 3],
           saved_objects = ids_upto 1 10 @ ids_upto 11 20 @ ids_upto 21 25, gather_errors = [],
           returned = Some (ids_upto 1 10 @ ids_upto 11 20 @ ids_upto 21 25)\<rparr>
   \<and> length (ids_upto 1 10 @ ids_upto 11 20 @ ids_upto 21 25) = 25"
proof -
  note t1 = gather_stage_pagination[where repr = example_repr and src = example_source
      and fetch = server_empty and int_str = example_int_str and ?u1.0 = "example_url 1"]
  note t2 = gather_stage_pagination[where repr = example_repr and src = example_source
      and fetch = server_25 and int_str = example_int_str and ?u1.0 = "example_url 1"
      and ?u2.0 = "example_url 2" and ?u3.0 = "example_url 3" and ?g1.0 = "ids_upto 1 10"
      and ?g2.0 = "ids_upto 11 20" and ?g3.0 = "ids_upto 21 25"]
  have h1: "search_url example_repr example_source 1 = Inr (example_url 1) \<and>
            server_empty (example_url 1) = Inr (search_page [] 0 10 0)"
    by (simp add: example_search_url server_empty_def)
  have h2: "search_url example_repr example_source 1 = Inr (example_url 1) \<and>
      search_url example_repr example_source 2 = Inr (example_url 2) \<and>
      search_url example_repr example_source 3 = Inr (example_url 3) \<and>
      server_25 (example_url 1) = Inr (search_page (map row_of (ids_upto 1 10)) 0 10 25) \<and>
      server_25 (example_url 2) = Inr (search_page (map row_of (ids_upto 11 20)) 10 10 25) \<and>
      server_25 (example_url 3) = Inr (search_page (map row_of (ids_upto 21 25)) 20 10 25) \<and>
      length (ids_upto 1 10) = 10 \<and> length (ids_upto 11 20) = 10 \<and> length (ids_upto 21 25) = 5"
    using example_url_neq
    by (simp add: example_search_url server_25_def ids_upto_def)
  from t1 h1 have
    "gather_stage server_empty example_int_str example_repr example_source =
     Some \<lparr>requests_made = [example_url 1], saved_objects = [], gather_errors = [],
           returned = Some []\<rparr>" by blast
  moreover from t2 h2 have
    "gather_stage server_25 example_int_str example_repr example_source =
     Some \<lparr>requests_made = [example_url 1, example_url 2, example_url 3],
           saved_objects = ids_upto 1 10 @ ids_upto 11 20 @ ids_upto 21 25, gather_errors = [],
           returned = Some (ids_upto 1 10 @ ids_upto 11 20 @ ids_upto 21 25)\<rparr>
     \<and> length (ids_upto 1 10 @ ids_upto 11 20 @ ids_upto 21 25) = 25" by blast
  ultimately show ?thesis by blast
qed

text \<open>
  Claim C9. Let pages 1 to \<open>n\<close> be delivered and processed, each asking for the next, and
  let \<open>u\<close> be the URL of page \<open>n + 1\<close>. Whenever that page raises, the stage ends there: no
  further page is requested, exactly one gather error is reported, built from \<open>u\<close> and the
  exception, and the harvest objects saved for the pages before, and for the rows of the
  failing page before the failure, stay saved. This holds when the request or the decoding
  of the body raises, when the body has no \<^verbatim>\<open>rows\<close>, when a row has no \<^verbatim>\<open>id\<close>, when the
  body has no \<^verbatim>\<open>offset\<close>, no \<^verbatim>\<open>limit\<close> or no \<^verbatim>\<open>found\<close>, and for any other exception of
  the page. The stage itself returns nothing in these cases.
\<close>

theorem gather_stage_failure:
  assumes "0 \<le> n"
    and "\<forall>p\<in>{1..n}. search_url repr src p = Inr (U p) \<and>
                     process_page fetch int_str (U p) [] = (Inr True, G p)"
    and "search_url repr src (n + 1) = Inr u"
  shows "(fetch u = Inl e \<longrightarrow>
            gather_stage fetch int_str repr src =
              Some \<lparr>requests_made = map U [1..n] @ [u], saved_objects = concat (map G [1..n]),
                    gather_errors = [(Some u, e)], returned = None\<rparr>)
       \<and> (fetch u = Inr (PDict d) \<and> dict_get d ''rows'' = None \<longrightarrow>
            gather_stage fetch int_str repr src =
              Some \<lparr>requests_made = map U [1..n] @ [u], saved_objects = concat (map G [1..n]),
                    gather_errors = [(Some u, KeyError)], returned = None\<rparr>)
       \<and> (fetch u = Inr (PDict d) \<and> dict_get d ''rows'' = Some (PList (pre @ PDict r # rest)) \<and>
          save_rows pre [] = (None, g) \<and> dict_get r ''id'' = None \<longrightarrow>
            gather_stage fetch int_str repr src =
              Some \<lparr>requests_made = map U [1..n] @ [u],
                    saved_objects = concat (map G [1..n]) @ g,
                    gather_errors = [(Some u, KeyError)], returned = None\<rparr>)
       \<and> (fetch u = Inr (PDict d) \<and> dict_get d ''rows'' = Some (PList rows) \<and>
          save_rows rows [] = (None, g) \<and>
          (dict_get d ''offset'' = None
           \<or> (\<exists>ov offset. dict_get d ''offset'' = Some ov \<and> py_int int_str ov = Inr offset \<and>
                 (dict_get d ''limit'' = None
                  \<or> (\<exists>lv limit. dict_get d ''limit'' = Some lv \<and> py_int int_str lv = Inr limit \<and>
                        dict_get d ''found'' = None)))) \<longrightarrow>
            gather_stage fetch int_str repr src =
              Some \<lparr>requests_made = map U [1..n] @ [u],
                    saved_objects = concat (map G [1..n]) @ g,
                    gather_errors = [(Some u, KeyError)], returned = None\<rparr>)
       \<and> (process_page fetch int_str u [] = (Inl e, g) \<longrightarrow>
            gather_stage fetch int_str repr src =
              Some \<lparr>requests_made = map U [1..n] @ [u],
                    saved_objects = concat (map G [1..n]) @ g,
                    gather_errors = [(Some u, e)], returned = None\<rparr>)"
proof -
  have good: "\<forall>p. 1 \<le> p \<and> p < n + 1 \<longrightarrow>
             search_url repr src p = Inr (U p) \<and>
             process_page fetch int_str (U p) [] = (Inr True, G p)"
    using assms(2) by auto
  have abort: "gather_stage fetch int_str repr src =
              Some \<lparr>requests_made = map U [1..n] @ [u],
                    saved_objects = concat (map G [1..n]) @ g',
                    gather_errors = [(Some u, e')], returned = None\<rparr>"
    if "process_page fetch int_str u [] = (Inl e', g')" for e' g'
    by (rule gather_stage_fails[OF assms(1) good assms(3) that])
  show ?thesis
  proof (intro conjI impI)
    assume "fetch u = Inl e"
    then have "process_page fetch int_str u [] = (Inl e, [])"
      by (simp add: process_page_def)
    from abort[OF this]
    show "gather_stage fetch int_str repr src =
              Some \<lparr>requests_made = map U [1..n] @ [u], saved_objects = concat (map G [1..n]),
                    gather_errors = [(Some u, e)], returned = None\<rparr>" by simp
  next
    assume "fetch u = Inr (PDict d) \<and> dict_get d ''rows'' = None"
    then have "process_page fetch int_str u [] = (Inl KeyError, [])"
      by (simp add: process_page_def)
    from abort[OF this]
    show "gather_stage fetch int_str repr src =
              Some \<lparr>requests_made = map U [1..n] @ [u], saved_objects = concat (map G [1..n]),
                    gather_errors = [(Some u, KeyError)], returned = None\<rparr>" by simp
  next
    assume a: "fetch u = Inr (PDict d) \<and>
               dict_get d ''rows'' = Some (PList (pre @ PDict r # rest)) \<and>
               save_rows pre [] = (None, g) \<and> dict_get r ''id'' = None"
    then have "save_rows (pre @ PDict r # rest) [] = (Some KeyError, g)"
      using save_rows_prefix[of pre "[]" g "PDict r # rest"] by simp
    with a have "process_page fetch int_str u [] = (Inl KeyError, g)"
      by (simp add: process_page_def)
    from abort[OF this]
    show "gather_stage fetch int_str repr src =
              Some \<lparr>requests_made = map U [1..n] @ [u],
                    saved_objects = concat (map G [1..n]) @ g,
                    gather_errors = [(Some u, KeyError)], returned = None\<rparr>" .
  next
    assume a: "fetch u = Inr (PDict d) \<and> dict_get d ''rows'' = Some (PList rows) \<and>
          save_rows rows [] = (None, g) \<and>
          (dict_get d ''offset'' = None
           \<or> (\<exists>ov offset. dict_get d ''offset'' = Some ov \<and> py_int int_str ov = Inr offset \<and>
                 (dict_get d ''limit'' = None
                  \<or> (\<exists>lv limit. dict_get d ''limit'' = Some lv \<and> py_int int_str lv = Inr limit \<and>
                        dict_get d ''found'' = None))))"
    then have "continue_gather int_str (PDict d) = Inl KeyError"
      by (auto simp: continue_gather_def)
    with a have "process_page fetch int_str u [] = (Inl KeyError, g)"
      by (simp add: process_page_def)
    from abort[OF this]
    show "gather_stage fetch int_str repr src =
              Some \<lparr>requests_made = map U [1..n] @ [u],
                    saved_objects = concat (map G [1..n]) @ g,
                    gather_errors = [(Some u, KeyError)], returned = None\<rparr>" .
  next
    assume "process_page fetch int_str u [] = (Inl e, g)"
    from abort[OF this]
    show "gather_stage fetch int_str repr src =
              Some \<lparr>requests_made = map U [1..n] @ [u],
                    saved_objects = concat (map G [1..n]) @ g,
                    gather_errors = [(Some u, e)], returned = None\<rparr>" .
  qed
qed

theorem gather_stage_failure_witness:
  "gather_stage server_broken example_int_str example_repr example_source =
     Some \<lparr>requests_made = [example_url 1, example_url 2],
           saved_objects = ids_upto 1 10 @ [PStr ''11''],
           gather_errors = [(Some (example_url 2), KeyError)], returned = None\<rparr>
   \<and> gather_stage server_down example_int_str example_repr example_source =
     Some \<lparr>requests_made = [example_url 1, example_url 2],
           saved_objects = ids_upto 1 10,
           gather_errors = [(Some (example_url 2), RequestException)], returned = None\<rparr>
   \<and> gather_stage server_no_found example_int_str example_repr example_source =
     Some \<lparr>requests_made = [example_url 1],
           saved_objects = [PStr ''7''],
           gather_errors = [(Some (example_url 1), KeyError)], returned = None\<rparr>"
proof -
  have g1: "\<forall>p\<in>{1..1}. search_url example_repr example_source p = Inr (example_url p) \<and>
             process_page server_broken example_int_str (example_url p) [] =
               (Inr True, ids_upto 1 10)"
    using process_search_page[of server_broken "example_url 1" "ids_upto 1 10" 0 10 25]
    by (simp add: example_search_url server_broken_def)
  have g2: "\<forall>p\<in>{1..1}. search_url example_repr example_source p = Inr (example_url p) \<and>
             process_page server_down example_int_str (example_url p) [] =
               (Inr True, ids_upto 1 10)"
    using process_search_page[of server_down "example_url 1" "ids_upto 1 10" 0 10 25]
    by (simp add: example_search_url server_down_def)
  have g3: "\<forall>p\<in>{1..0}. search_url example_repr example_source p = Inr (example_url p) \<and>
             process_page server_no_found example_int_str (example_url p) [] = (Inr True, [])"
    by simp
  have u2: "search_url example_repr example_source (1 + 1) = Inr (example_url 2)"
    and u1: "search_url example_repr example_source (0 + 1) = Inr (example_url 1)"
    by (simp_all add: example_search_url)
  have f1: "server_broken (example_url 2) =
      Inr (PDict [(''rows'', PList ([row_of (PStr ''11'')] @ PDict [(''idno'', PStr ''x'')]
                                     # [row_of (PStr ''13'')])),
                  (''offset'', PInt 10), (''limit'', PInt 10), (''found'', PInt 25)])
      \<and> dict_get [(''rows'', PList ([row_of (PStr ''11'')] @ PDict [(''idno'', PStr ''x'')]
                                     # [row_of (PStr ''13'')])),
                  (''offset'', PInt 10), (''limit'', PInt 10), (''found'', PInt 25)] ''rows''
          = Some (PList ([row_of (PStr ''11'')] @ PDict [(''idno'', PStr ''x'')]
                                     # [row_of (PStr ''13'')]))
      \<and> save_rows [row_of (PStr ''11'')] [] = (None, [PStr ''11''])
      \<and> dict_get [(''idno'', PStr ''x'')] ''id'' = None"
    using example_url_neq
    by (simp add: server_broken_def search_page_def dict_get_def row_of_def)
  have f2: "server_down (example_url 2) = Inl RequestException"
    using example_url_neq by (simp add: server_down_def)
  have f3: "server_no_found (example_url 1) =
      Inr (PDict [(''rows'', PList [row_of (PStr ''7'')]), (''offset'', PInt 0),
                  (''limit'', PStr ''10'')])
      \<and> dict_get [(''rows'', PList [row_of (PStr ''7'')]), (''offset'', PInt 0),
                  (''limit'', PStr ''10'')] ''rows'' = Some (PList [row_of (PStr ''7'')])
      \<and> save_rows [row_of (PStr ''7'')] [] = (None, [PStr ''7''])
      \<and> (dict_get [(''rows'', PList [row_of (PStr ''7'')]), (''offset'', PInt 0),
                  (''limit'', PStr ''10'')] ''offset'' = None
           \<or> (\<exists>ov offset. dict_get [(''rows'', PList [row_of (PStr ''7'')]), (''offset'', PInt 0),
                  (''limit'', PStr ''10'')] ''offset'' = Some ov \<and>
                 py_int example_int_str ov = Inr offset \<and>
                 (dict_get [(''rows'', PList [row_of (PStr ''7'')]), (''offset'', PInt 0),
                  (''limit'', PStr ''10'')] ''limit'' = None
                  \<or> (\<exists>lv limit. dict_get [(''rows'', PList [row_of (PStr ''7'')]), (''offset'', PInt 0),
                  (''limit'', PStr ''10'')] ''limit'' = Some lv \<and>
                        py_int example_int_str lv = Inr limit \<and>
                        dict_get [(''rows'', PList [row_of (PStr ''7'')]), (''offset'', PInt 0),
                  (''limit'', PStr ''10'')] ''found'' = None))))"
    by (simp add: server_no_found_def dict_get_def row_of_def example_int_str_def digit_val_def)
  have n0: "(0::int) \<le> 0" and n1: "(0::int) \<le> 1" by simp_all
  note t1 = gather_stage_failure[where fetch = server_broken and U = example_url
      and G = "\<lambda>p. ids_upto 1 10", OF n1 g1 u2,
      THEN conjunct2, THEN conjunct2, THEN conjunct1, THEN mp, OF f1]
  note t2 = gather_stage_failure[where fetch = server_down and U = example_url
      and G = "\<lambda>p. ids_upto 1 10", OF n1 g2 u2, THEN conjunct1, THEN mp, OF f2]
  note t3 = gather_stage_failure[where fetch = server_no_found and U = example_url
      and G = "\<lambda>p. []", OF n0 g3 u1,
      THEN conjunct2, THEN conjunct2, THEN conjunct2, THEN conjunct1, THEN mp, OF f3]
  have l: "[1..1::int] = [1]" "[1..0::int] = []" by (simp_all add: upto_rec1)
  from t1 t2 t3 show ?thesis unfolding l by simp
qed

text \<open>
  Claim C4, as stated, fails: the code has no forward-progress guard. A server that answers
  every page with one row, offset 0, limit 10 and found 25 never advances, and the stage
  neither raises nor returns.
\<close>

theorem gather_stage_stuck_server: "gather_stage server_stuck example_int_str example_repr example_source = None"
  by (rule gather_stage_diverges[OF stuck_pages])

text \<open>
  Claim C4, amended. Discovery tests nothing but \<open>offset + limit < found\<close> on the page just
  read. For every server whose pages are all delivered with rows that carry an \<^verbatim>\<open>id\<close> and
  all report \<open>offset + limit < found\<close>, whether or not offset and limit advance between
  pages, the stage requests pages forever: it does not return and reports no error.
\<close>

theorem gather_stage_never_returns:
  assumes "\<forall>p\<ge>1. \<exists>u g offset limit found.
             search_url repr src p = Inr u \<and>
             fetch u = Inr (search_page (map row_of g) offset limit found) \<and>
             offset + limit < found"
  shows "gather_stage fetch int_str repr src = None"
proof (rule gather_stage_diverges, intro allI impI)
  fix p :: int assume "1 \<le> p"
  with assms obtain u g offset limit found where
    s: "search_url repr src p = Inr u" and
    f: "fetch u = Inr (search_page (map row_of g) offset limit found)" and
    c: "offset + limit < found" by blast
  from process_search_page[of fetch u g offset limit found, OF f] c
  have "process_page fetch int_str u [] = (Inr True, g)" by simp
  with s show "\<exists>u g. search_url repr src p = Inr u \<and> process_page fetch int_str u [] = (Inr True, g)"
    by blast
qed

theorem gather_stage_never_returns_witness: "gather_stage server_stuck_empty example_int_str example_repr example_source = None"
proof (rule gather_stage_never_returns, intro allI impI)
  fix p :: int assume "1 \<le> p"
  have "search_url example_repr example_source p = Inr (example_url p) \<and>
        server_stuck_empty (example_url p) = Inr (search_page (map row_of []) 0 10 25) \<and>
        (0::int) + 10 < 25"
    by (simp add: example_search_url server_stuck_empty_def)
  then show "\<exists>u g offset limit found.
             search_url example_repr example_source p = Inr u \<and>
             server_stuck_empty u = Inr (search_page (map row_of g) offset limit found) \<and>
             offset + limit < found" by blast
qed

end
